theory Spec2Isabelle
  imports Complex_Main
begin

section \<open>Numbers\<close>

text \<open>
  The engine computes with JavaScript numbers. Durations and frame deltas are finite
  numbers, modelled as rationals (the rounding of IEEE doubles is not modelled; the one
  quotient the claims evaluate, \<open>d / d\<close> for a finite non-zero \<open>d\<close>, is exactly 1 in
  both). The only arithmetic of the engine that can leave the finite numbers is
  \<open>this.progress += deltaTime / this.duration\<close> with a zero duration, so a progress
  value is a \<open>jsnum\<close>: a finite number, an infinity or NaN. Counts, depths and indices
  that the source compares with \<open>-1\<close> or clamps are \<open>int\<close>; array positions are \<open>nat\<close>.
\<close>

datatype jsnum = Num rat | PosInfinity | NegInfinity | NaN

text \<open>\<open>a / b\<close> for finite \<open>a\<close> and \<open>b\<close>: division by zero gives an infinity or NaN.\<close>

definition js_div :: "rat \<Rightarrow> rat \<Rightarrow> jsnum" where
  "js_div a b =
     (if b \<noteq> 0 then Num (a / b)
      else if 0 < a then PosInfinity
      else if a < 0 then NegInfinity
      else NaN)"

fun js_add :: "jsnum \<Rightarrow> jsnum \<Rightarrow> jsnum" where
  "js_add (Num a) (Num b) = Num (a + b)"
| "js_add NaN _ = NaN"
| "js_add _ NaN = NaN"
| "js_add PosInfinity NegInfinity = NaN"
| "js_add NegInfinity PosInfinity = NaN"
| "js_add PosInfinity _ = PosInfinity"
| "js_add _ PosInfinity = PosInfinity"
| "js_add NegInfinity _ = NegInfinity"
| "js_add _ NegInfinity = NegInfinity"

text \<open>\<open>x >= 1\<close>: false for NaN.\<close>

fun js_ge1 :: "jsnum \<Rightarrow> bool" where
  "js_ge1 (Num a) = (1 \<le> a)"
| "js_ge1 PosInfinity = True"
| "js_ge1 NegInfinity = False"
| "js_ge1 NaN = False"

text \<open>
  \<open>EASING.easeInOutCubic: t => t < 0.5 ? 4 * t * t * t : (t - 1) * (2 * t - 2) * (2 * t - 2) + 1\<close>
\<close>

fun easeInOutCubic :: "jsnum \<Rightarrow> jsnum" where
  "easeInOutCubic (Num t) =
     Num (if t < 1 / 2 then 4 * t * t * t else (t - 1) * (2 * t - 2) * (2 * t - 2) + 1)"
| "easeInOutCubic PosInfinity = PosInfinity"
| "easeInOutCubic NegInfinity = NegInfinity"
| "easeInOutCubic NaN = NaN"

text \<open>\<open>CONFIG.animation.actionDuration\<close> and \<open>CONFIG.actions.maxQueueSize\<close>.\<close>

definition actionDuration :: rat where
  "actionDuration = 300"

definition maxQueueSize :: int where
  "maxQueueSize = 50"

section \<open>Action\<close>

datatype ActionType = MOVE_UP | MOVE_DOWN | MOVE_LEFT | MOVE_RIGHT | WAIT

text \<open>
  An \<open>Action\<close> object. Its \<open>id\<close> (time stamp and random suffix) is not modelled: the
  identity of an object is its address in the store below.
\<close>

record Action =
  atype :: ActionType
  duration :: rat
  isExecuting :: bool
  isComplete :: bool
  progress :: jsnum

definition Action_new :: "ActionType \<Rightarrow> rat \<Rightarrow> Action" where
  "Action_new t d =
     \<lparr>atype = t, duration = d, isExecuting = False, isComplete = False, progress = Num 0\<rparr>"

fun DirectionVectors :: "ActionType \<Rightarrow> int \<times> int" where
  "DirectionVectors MOVE_UP = (0, -1)"
| "DirectionVectors MOVE_DOWN = (0, 1)"
| "DirectionVectors MOVE_LEFT = (-1, 0)"
| "DirectionVectors MOVE_RIGHT = (1, 0)"
| "DirectionVectors WAIT = (0, 0)"

definition Action_getDirection :: "Action \<Rightarrow> int \<times> int" where
  "Action_getDirection a = DirectionVectors (atype a)"

definition Action_start :: "Action \<Rightarrow> Action" where
  "Action_start a = a\<lparr>isExecuting := True, isComplete := False, progress := Num 0\<rparr>"

text \<open>\<open>Action.update(deltaTime)\<close>: the updated object and the returned number.\<close>

definition Action_update :: "Action \<Rightarrow> rat \<Rightarrow> Action \<times> jsnum" where
  "Action_update a deltaTime =
     (if \<not> isExecuting a \<or> isComplete a then (a, progress a)
      else
        let a1 = a\<lparr>progress := js_add (progress a) (js_div deltaTime (duration a))\<rparr>;
            a2 = (if js_ge1 (progress a1)
                  then a1\<lparr>progress := Num 1, isComplete := True, isExecuting := False\<rparr>
                  else a1)
        in (a2, easeInOutCubic (progress a2)))"

definition Action_reset :: "Action \<Rightarrow> Action" where
  "Action_reset a = a\<lparr>isExecuting := False, isComplete := False, progress := Num 0\<rparr>"

definition Action_clone :: "Action \<Rightarrow> Action" where
  "Action_clone a = Action_new (atype a) (duration a)"

section \<open>ActionGroup and GroupReference\<close>

text \<open>
  An \<open>ActionGroup\<close> owns its template actions: \<open>addAction\<close> clones on the way in and
  \<open>getActions\<close> clones on the way out, so the list is held by value. None of the
  operations modelled here changes a group, so a \<open>GroupReference\<close> holds its group by
  value as well. Generated identifiers and the static naming counter are not modelled.
\<close>

record ActionGroup =
  ag_name :: string
  ag_color :: string
  ag_actions :: "Action list"

definition ActionGroup_getActions :: "ActionGroup \<Rightarrow> Action list" where
  "ActionGroup_getActions g = map Action_clone (ag_actions g)"

definition ActionGroup_size :: "ActionGroup \<Rightarrow> nat" where
  "ActionGroup_size g = length (ag_actions g)"

text \<open>
  \<open>ActionGroup.clone()\<close>: \<open>new ActionGroup(this.name + ' copy', this.color)\<close>, then
  \<open>addAction\<close> for each action. The constructor replaces an empty name or colour by a
  default taken from the static counter; the name passed here is never empty, and the
  colour of a constructed group never is, so the defaults do not arise.
\<close>

definition ActionGroup_clone :: "ActionGroup \<Rightarrow> ActionGroup" where
  "ActionGroup_clone g =
     \<lparr>ag_name = ag_name g @ '' copy'', ag_color = ag_color g,
      ag_actions = map Action_clone (ag_actions g)\<rparr>"

record GroupReference =
  gr_group :: ActionGroup
  gr_isExecuting :: bool
  gr_isComplete :: bool
  gr_currentActionIndex :: nat

definition GroupReference_new :: "ActionGroup \<Rightarrow> GroupReference" where
  "GroupReference_new g =
     \<lparr>gr_group = g, gr_isExecuting = False, gr_isComplete = False, gr_currentActionIndex = 0\<rparr>"

definition GroupReference_getActions :: "GroupReference \<Rightarrow> Action list" where
  "GroupReference_getActions r = ActionGroup_getActions (gr_group r)"

definition GroupReference_reset :: "GroupReference \<Rightarrow> GroupReference" where
  "GroupReference_reset r =
     r\<lparr>gr_isExecuting := False, gr_isComplete := False, gr_currentActionIndex := 0\<rparr>"

definition GroupReference_clone :: "GroupReference \<Rightarrow> GroupReference" where
  "GroupReference_clone r = GroupReference_new (gr_group r)"

section \<open>RepeatBlock\<close>

definition MAX_REPETITIONS :: int where
  "MAX_REPETITIONS = 99"

definition DEFAULT_REPETITIONS :: int where
  "DEFAULT_REPETITIONS = 2"

definition MAX_ITEMS_IN_REPEAT :: nat where
  "MAX_ITEMS_IN_REPEAT = 2"

text \<open>
  What a repeat block holds: the three kinds of item that \<open>getExpandedActions\<close>
  distinguishes (a group reference, an action group, a plain action).
\<close>

datatype RepeatItem =
  RepeatAction Action
| RepeatGroupRef GroupReference
| RepeatGroup ActionGroup

record RepeatBlock =
  rb_count :: int
  rb_items :: "RepeatItem list"
  rb_isExecuting :: bool
  rb_isComplete :: bool
  rb_currentIteration :: int
  rb_currentItemIndex :: nat

definition RepeatBlock_new :: "int \<Rightarrow> RepeatBlock" where
  "RepeatBlock_new n =
     \<lparr>rb_count = min (max 1 n) MAX_REPETITIONS, rb_items = [],
      rb_isExecuting = False, rb_isComplete = False,
      rb_currentIteration = 0, rb_currentItemIndex = 0\<rparr>"

text \<open>\<open>item.clone()\<close>, by the class of the item.\<close>

fun RepeatItem_clone :: "RepeatItem \<Rightarrow> RepeatItem" where
  "RepeatItem_clone (RepeatAction a) = RepeatAction (Action_clone a)"
| "RepeatItem_clone (RepeatGroupRef r) = RepeatGroupRef (GroupReference_clone r)"
| "RepeatItem_clone (RepeatGroup g) = RepeatGroup (ActionGroup_clone g)"

text \<open>\<open>RepeatBlock.addItem(item)\<close>: the returned boolean and the block afterwards.\<close>

definition RepeatBlock_addItem :: "RepeatBlock \<Rightarrow> RepeatItem \<Rightarrow> bool \<times> RepeatBlock" where
  "RepeatBlock_addItem b item =
     (if length (rb_items b) \<ge> MAX_ITEMS_IN_REPEAT then (False, b)
      else (True, b\<lparr>rb_items := rb_items b @ [RepeatItem_clone item]\<rparr>))"

definition RepeatBlock_setCount :: "RepeatBlock \<Rightarrow> int \<Rightarrow> RepeatBlock" where
  "RepeatBlock_setCount b n = b\<lparr>rb_count := min (max 1 n) MAX_REPETITIONS\<rparr>"

text \<open>
  One entry of \<open>RepeatBlock.getExpandedActions()\<close>. The entry's \<open>repeatBlock: this\<close> is
  left out: \<open>expandItems\<close> does not read it (it stores the queue item itself).
\<close>

record RepeatExpanded =
  rx_action :: Action
  rx_iteration :: int
  rx_isFromRepeat :: bool

text \<open>The body of \<open>this.items.forEach(item => ...)\<close> for one item: what it pushes.\<close>

fun RepeatBlock_expandItem :: "int \<Rightarrow> RepeatItem \<Rightarrow> RepeatExpanded list" where
  "RepeatBlock_expandItem iteration (RepeatGroupRef r) =
     map (\<lambda>action. \<lparr>rx_action = Action_clone action, rx_iteration = iteration,
                     rx_isFromRepeat = True\<rparr>)
       (GroupReference_getActions r)"
| "RepeatBlock_expandItem iteration (RepeatGroup g) =
     map (\<lambda>action. \<lparr>rx_action = action, rx_iteration = iteration, rx_isFromRepeat = True\<rparr>)
       (ActionGroup_getActions g)"
| "RepeatBlock_expandItem iteration (RepeatAction a) =
     [\<lparr>rx_action = Action_clone a, rx_iteration = iteration, rx_isFromRepeat = True\<rparr>]"

text \<open>
  The loop \<open>for (let iteration = 0; iteration < this.count; iteration++)\<close> from a given
  \<open>iteration\<close> on, with the array \<open>allActions\<close> built so far.
\<close>

function RepeatBlock_loop :: "RepeatBlock \<Rightarrow> int \<Rightarrow> RepeatExpanded list \<Rightarrow> RepeatExpanded list" where
  "RepeatBlock_loop b iteration allActions =
     (if iteration < rb_count b
      then RepeatBlock_loop b (iteration + 1)
             (foldl (\<lambda>acc item. acc @ RepeatBlock_expandItem iteration item)
                allActions (rb_items b))
      else allActions)"
  by pat_completeness auto
termination
  by (relation "measure (\<lambda>(b, iteration, allActions). nat (rb_count b - iteration))") auto

declare RepeatBlock_loop.simps [simp del]

definition RepeatBlock_getExpandedActions :: "RepeatBlock \<Rightarrow> RepeatExpanded list" where
  "RepeatBlock_getExpandedActions b = RepeatBlock_loop b 0 []"

fun RepeatItem_reset :: "RepeatItem \<Rightarrow> RepeatItem" where
  "RepeatItem_reset (RepeatAction a) = RepeatAction (Action_reset a)"
| "RepeatItem_reset (RepeatGroupRef r) = RepeatGroupRef (GroupReference_reset r)"
| "RepeatItem_reset (RepeatGroup g) = RepeatGroup g"

definition RepeatBlock_reset :: "RepeatBlock \<Rightarrow> RepeatBlock" where
  "RepeatBlock_reset b =
     b\<lparr>rb_isExecuting := False, rb_isComplete := False,
       rb_currentIteration := 0, rb_currentItemIndex := 0,
       rb_items := map RepeatItem_reset (rb_items b)\<rparr>"

section \<open>RecursiveGroup and RecursiveReference\<close>

definition MAX_RECURSION_DEPTH :: int where
  "MAX_RECURSION_DEPTH = 5"

definition DEFAULT_RECURSION_DEPTH :: int where
  "DEFAULT_RECURSION_DEPTH = 3"

record RecursiveGroup =
  rg_id :: nat
  rg_name :: string
  rg_color :: string
  preActions :: "Action list"
  postActions :: "Action list"
  maxDepth :: int
  rg_currentDepth :: int
  rg_isComplete :: bool
  rg_isExecuting :: bool

definition RecursiveGroup_addPreAction :: "RecursiveGroup \<Rightarrow> Action \<Rightarrow> RecursiveGroup" where
  "RecursiveGroup_addPreAction g a = g\<lparr>preActions := preActions g @ [Action_clone a]\<rparr>"

definition RecursiveGroup_addPostAction :: "RecursiveGroup \<Rightarrow> Action \<Rightarrow> RecursiveGroup" where
  "RecursiveGroup_addPostAction g a = g\<lparr>postActions := postActions g @ [Action_clone a]\<rparr>"

definition RecursiveGroup_setMaxDepth :: "RecursiveGroup \<Rightarrow> int \<Rightarrow> RecursiveGroup" where
  "RecursiveGroup_setMaxDepth g depth = g\<lparr>maxDepth := max 1 (min MAX_RECURSION_DEPTH depth)\<rparr>"

definition RecursiveGroup_baseSize :: "RecursiveGroup \<Rightarrow> nat" where
  "RecursiveGroup_baseSize g = length (preActions g) + length (postActions g)"

datatype Phase = Pre | Post

record RecursiveExpanded =
  re_action :: Action
  re_depth :: int
  re_phase :: Phase
  re_actionIndex :: nat
  re_isBaseCase :: bool
  re_isFirstAtDepth :: bool
  re_isLastAtDepth :: bool

text \<open>The entries pushed by the two \<open>forEach\<close> loops of \<open>getExpandedActions(depth)\<close>.\<close>

definition RecursiveGroup_pre :: "RecursiveGroup \<Rightarrow> int \<Rightarrow> RecursiveExpanded list" where
  "RecursiveGroup_pre g depth =
     map (\<lambda>(index, action).
            \<lparr>re_action = Action_clone action, re_depth = depth, re_phase = Pre,
             re_actionIndex = index, re_isBaseCase = False,
             re_isFirstAtDepth = (index = 0), re_isLastAtDepth = False\<rparr>)
       (enumerate 0 (preActions g))"

definition RecursiveGroup_post :: "RecursiveGroup \<Rightarrow> int \<Rightarrow> RecursiveExpanded list" where
  "RecursiveGroup_post g depth =
     map (\<lambda>(index, action).
            \<lparr>re_action = Action_clone action, re_depth = depth, re_phase = Post,
             re_actionIndex = index,
             re_isBaseCase = (depth = maxDepth g - 1 \<and> index = 0),
             re_isFirstAtDepth = False,
             re_isLastAtDepth = (int index = int (length (postActions g)) - 1)\<rparr>)
       (enumerate 0 (postActions g))"

function RecursiveGroup_getExpandedActions :: "RecursiveGroup \<Rightarrow> int \<Rightarrow> RecursiveExpanded list" where
  "RecursiveGroup_getExpandedActions g depth =
     (if depth \<ge> maxDepth g then []
      else RecursiveGroup_pre g depth
           @ (if \<not> (depth = maxDepth g - 1)
              then RecursiveGroup_getExpandedActions g (depth + 1) else [])
           @ RecursiveGroup_post g depth)"
  by pat_completeness auto
termination
  by (relation "measure (\<lambda>(g, depth). nat (maxDepth g - depth))") auto

declare RecursiveGroup_getExpandedActions.simps [simp del]

definition RecursiveGroup_getTotalActionCount :: "RecursiveGroup \<Rightarrow> int" where
  "RecursiveGroup_getTotalActionCount g = int (RecursiveGroup_baseSize g) * maxDepth g"

record RecursiveReference =
  rr_group :: RecursiveGroup
  rr_isComplete :: bool
  rr_isExecuting :: bool
  rr_currentDepth :: int

definition RecursiveReference_new :: "RecursiveGroup \<Rightarrow> RecursiveReference" where
  "RecursiveReference_new g =
     \<lparr>rr_group = g, rr_isComplete = False, rr_isExecuting = False, rr_currentDepth = 0\<rparr>"

definition RecursiveReference_getExpandedActions :: "RecursiveReference \<Rightarrow> RecursiveExpanded list" where
  "RecursiveReference_getExpandedActions r = RecursiveGroup_getExpandedActions (rr_group r) 0"

definition RecursiveReference_getMaxDepth :: "RecursiveReference \<Rightarrow> int" where
  "RecursiveReference_getMaxDepth r = maxDepth (rr_group r)"

definition RecursiveReference_reset :: "RecursiveReference \<Rightarrow> RecursiveReference" where
  "RecursiveReference_reset r =
     r\<lparr>rr_isComplete := False, rr_isExecuting := False, rr_currentDepth := 0\<rparr>"

section \<open>The object store\<close>

text \<open>
  The queue holds references: a plain action placed in the queue is the very object that
  playback later mutates through the expanded step, and the flags of a repeat block, a
  group reference or a recursive reference are written through the step as well. Objects
  therefore live in a store, one table per class, addressed by \<open>ref\<close>; a queue item is a
  tagged reference, so the dispatch of \<open>expandItems\<close> is a match on the tag. An address
  that was never allocated holds whatever the table has there; nothing below reads one
  in a state built by the constructors. The callbacks (\<open>onActionStart\<close>, ...) are
  optional handlers: the model records each call the queue makes, with its arguments, in
  the log \<open>fired\<close>. In the operations of the next section a handler only observes;
  handlers that act on the queue come after them, in a section of their own.
\<close>

type_synonym ref = nat

datatype QueueItem =
  ItemAction ref
| ItemGroupReference ref
| ItemRepeatBlock ref
| ItemRecursiveReference ref

datatype QueueState = IDLE | RUNNING | PAUSED | COMPLETE

text \<open>
  An entry of \<open>expandedActions\<close>. The properties that only the recursion branch of
  \<open>expandItems\<close> writes are optional: \<open>None\<close> is JavaScript's \<open>undefined\<close>.
\<close>

record ExpandedStep =
  action :: ref
  itemIndex :: nat
  isFromGroup :: bool
  isFromRepeat :: bool
  isFromRecursion :: bool
  repeatBlock :: "ref option"
  recursiveRef :: "ref option"
  recursionDepth :: int
  recursionPhase :: "Phase option"
  recursionMaxDepth :: "int option"
  isBaseCase :: "bool option"
  isFirstAtDepth :: "bool option"
  isLastAtDepth :: "bool option"
  iteration :: int
  totalIterations :: int
  isFirstInIteration :: bool
  isLastInIteration :: bool
  isFirstInRepeat :: bool
  isLastInRepeat :: bool
  isFirstInRecursion :: "bool option"
  isLastInRecursion :: "bool option"
  groupRef :: "ref option"
  actionIndexInGroup :: int
  isFirstInGroup :: bool
  isLastInGroup :: bool

datatype Event =
  onActionStart ref nat ExpandedStep
| onActionComplete ref nat ExpandedStep
| onQueueComplete
| onQueueChange "QueueItem list" nat
| onGroupStart ref nat
| onGroupComplete ref nat
| onRepeatStart ref nat
| onRepeatIteration ref int int
| onRepeatComplete ref nat
| onRecursionStart ref nat
| onRecursionDepthChange "ref option" int "Phase option"
| onRecursionComplete ref nat

record world =
  heapAction :: "ref \<Rightarrow> Action"
  heapGroupReference :: "ref \<Rightarrow> GroupReference"
  heapRepeatBlock :: "ref \<Rightarrow> RepeatBlock"
  heapRecursiveReference :: "ref \<Rightarrow> RecursiveReference"
  nextRef :: ref
  items :: "QueueItem list"
  maxSize :: int
  currentIndex :: nat
  state :: QueueState
  expandedActions :: "ExpandedStep list"
  expandedIndex :: nat
  fired :: "Event list"

text \<open>Storing a newly constructed object at the next free address.\<close>

definition new_Action :: "Action \<Rightarrow> world \<Rightarrow> ref \<times> world" where
  "new_Action a w =
     (nextRef w, w\<lparr>heapAction := (heapAction w)(nextRef w := a), nextRef := Suc (nextRef w)\<rparr>)"

definition new_GroupReference :: "GroupReference \<Rightarrow> world \<Rightarrow> ref \<times> world" where
  "new_GroupReference g w =
     (nextRef w, w\<lparr>heapGroupReference := (heapGroupReference w)(nextRef w := g),
                   nextRef := Suc (nextRef w)\<rparr>)"

definition new_RepeatBlock :: "RepeatBlock \<Rightarrow> world \<Rightarrow> ref \<times> world" where
  "new_RepeatBlock b w =
     (nextRef w, w\<lparr>heapRepeatBlock := (heapRepeatBlock w)(nextRef w := b),
                   nextRef := Suc (nextRef w)\<rparr>)"

definition new_RecursiveReference :: "RecursiveReference \<Rightarrow> world \<Rightarrow> ref \<times> world" where
  "new_RecursiveReference r w =
     (nextRef w, w\<lparr>heapRecursiveReference := (heapRecursiveReference w)(nextRef w := r),
                   nextRef := Suc (nextRef w)\<rparr>)"

text \<open>Writing through a reference.\<close>

definition modifyAction :: "ref \<Rightarrow> (Action \<Rightarrow> Action) \<Rightarrow> world \<Rightarrow> world" where
  "modifyAction r f w = w\<lparr>heapAction := (heapAction w)(r := f (heapAction w r))\<rparr>"

definition modifyGroupReference :: "ref \<Rightarrow> (GroupReference \<Rightarrow> GroupReference) \<Rightarrow> world \<Rightarrow> world" where
  "modifyGroupReference r f w =
     w\<lparr>heapGroupReference := (heapGroupReference w)(r := f (heapGroupReference w r))\<rparr>"

definition modifyRepeatBlock :: "ref \<Rightarrow> (RepeatBlock \<Rightarrow> RepeatBlock) \<Rightarrow> world \<Rightarrow> world" where
  "modifyRepeatBlock r f w =
     w\<lparr>heapRepeatBlock := (heapRepeatBlock w)(r := f (heapRepeatBlock w r))\<rparr>"

definition modifyRecursiveReference ::
  "ref \<Rightarrow> (RecursiveReference \<Rightarrow> RecursiveReference) \<Rightarrow> world \<Rightarrow> world" where
  "modifyRecursiveReference r f w =
     w\<lparr>heapRecursiveReference := (heapRecursiveReference w)(r := f (heapRecursiveReference w r))\<rparr>"

text \<open>A call of a callback slot.\<close>

definition fire :: "Event \<Rightarrow> world \<Rightarrow> world" where
  "fire e w = w\<lparr>fired := fired w @ [e]\<rparr>"

section \<open>ActionQueue\<close>

text \<open>
  \<open>new ActionQueue(maxSize)\<close> in a program state \<open>w\<close>: the fields of the queue are
  initialised, the store is as it was, and no callback has been called.
\<close>

definition ActionQueue_new :: "int \<Rightarrow> world \<Rightarrow> world" where
  "ActionQueue_new m w =
     w\<lparr>items := [], maxSize := m, currentIndex := 0, state := IDLE,
       expandedActions := [], expandedIndex := 0, fired := []\<rparr>"

definition ActionQueue_notifyChange :: "world \<Rightarrow> world" where
  "ActionQueue_notifyChange w = fire (onQueueChange (items w) (currentIndex w)) w"

definition ActionQueue_add :: "QueueItem \<Rightarrow> world \<Rightarrow> bool \<times> world" where
  "ActionQueue_add item w =
     (if int (length (items w)) \<ge> maxSize w then (False, w)
      else if state w = RUNNING then (False, w)
      else (True, ActionQueue_notifyChange (w\<lparr>items := items w @ [item]\<rparr>)))"

definition ActionQueue_addByType :: "ActionType \<Rightarrow> world \<Rightarrow> bool \<times> world" where
  "ActionQueue_addByType actionType w =
     (let (r, w1) = new_Action (Action_new actionType actionDuration) w
      in ActionQueue_add (ItemAction r) w1)"

definition ActionQueue_addGroupReference :: "ActionGroup \<Rightarrow> world \<Rightarrow> bool \<times> world" where
  "ActionQueue_addGroupReference g w =
     (let (r, w1) = new_GroupReference (GroupReference_new g) w
      in ActionQueue_add (ItemGroupReference r) w1)"

text \<open>\<open>addRepeatBlock(repeatBlock)\<close> takes the repeat block object itself.\<close>

definition ActionQueue_addRepeatBlock :: "ref \<Rightarrow> world \<Rightarrow> bool \<times> world" where
  "ActionQueue_addRepeatBlock r w = ActionQueue_add (ItemRepeatBlock r) w"

definition ActionQueue_addRecursiveReference :: "RecursiveGroup \<Rightarrow> world \<Rightarrow> bool \<times> world" where
  "ActionQueue_addRecursiveReference g w =
     (let (r, w1) = new_RecursiveReference (RecursiveReference_new g) w
      in ActionQueue_add (ItemRecursiveReference r) w1)"

text \<open>\<open>item.reset()\<close> for an item of the queue.\<close>

fun QueueItem_reset :: "QueueItem \<Rightarrow> world \<Rightarrow> world" where
  "QueueItem_reset (ItemAction r) w = modifyAction r Action_reset w"
| "QueueItem_reset (ItemGroupReference r) w = modifyGroupReference r GroupReference_reset w"
| "QueueItem_reset (ItemRepeatBlock r) w = modifyRepeatBlock r RepeatBlock_reset w"
| "QueueItem_reset (ItemRecursiveReference r) w =
     modifyRecursiveReference r RecursiveReference_reset w"

definition ActionQueue_reset :: "world \<Rightarrow> world" where
  "ActionQueue_reset w =
     (let w1 = w\<lparr>currentIndex := 0, expandedIndex := 0, state := IDLE, expandedActions := []\<rparr>
      in foldl (\<lambda>w' item. QueueItem_reset item w') w1 (items w1))"

definition ActionQueue_stop :: "world \<Rightarrow> world" where
  "ActionQueue_stop w = ActionQueue_reset (w\<lparr>state := IDLE\<rparr>)"

text \<open>\<open>removeAt(index)\<close>: the removed item (\<open>None\<close> is \<open>null\<close>) and the state afterwards.\<close>

definition ActionQueue_removeAt :: "int \<Rightarrow> world \<Rightarrow> QueueItem option \<times> world" where
  "ActionQueue_removeAt index w =
     (if state w = RUNNING then (None, w)
      else if index < 0 \<or> index \<ge> int (length (items w)) then (None, w)
      else (Some (items w ! nat index),
            ActionQueue_notifyChange
              (w\<lparr>items := take (nat index) (items w) @ drop (Suc (nat index)) (items w)\<rparr>)))"

definition ActionQueue_removeLast :: "world \<Rightarrow> QueueItem option \<times> world" where
  "ActionQueue_removeLast w = ActionQueue_removeAt (int (length (items w)) - 1) w"

definition ActionQueue_clear :: "world \<Rightarrow> world" where
  "ActionQueue_clear w =
     (let w1 = (if state w = RUNNING then ActionQueue_stop w else w)
      in ActionQueue_notifyChange
           (w1\<lparr>items := [], expandedActions := [], currentIndex := 0,
               expandedIndex := 0, state := IDLE\<rparr>))"

subsection \<open>Expansion\<close>

text \<open>The object literals pushed by the four branches of \<open>expandItems\<close>.\<close>

definition repeatStep ::
  "ref \<Rightarrow> nat \<Rightarrow> ref \<Rightarrow> int \<Rightarrow> RepeatExpanded list \<Rightarrow> nat \<Rightarrow> RepeatExpanded \<Rightarrow> int \<Rightarrow> ExpandedStep" where
  "repeatStep a itemIdx item cnt expandedRepeat actionIndex expandedItem lastIteration =
     \<lparr>action = a, itemIndex = itemIdx,
      isFromGroup = False, isFromRepeat = True, isFromRecursion = False,
      repeatBlock = Some item, recursiveRef = None,
      recursionDepth = 0, recursionPhase = None,
      recursionMaxDepth = None, isBaseCase = None,
      isFirstAtDepth = None, isLastAtDepth = None,
      iteration = rx_iteration expandedItem, totalIterations = cnt,
      isFirstInIteration = (rx_iteration expandedItem \<noteq> lastIteration),
      isLastInIteration =
        (int actionIndex = int (length expandedRepeat) - 1 \<or>
         (if actionIndex + 1 < length expandedRepeat
          then rx_iteration (expandedRepeat ! (actionIndex + 1)) \<noteq> rx_iteration expandedItem
          else True)),
      isFirstInRepeat = (actionIndex = 0),
      isLastInRepeat = (int actionIndex = int (length expandedRepeat) - 1),
      isFirstInRecursion = None, isLastInRecursion = None,
      groupRef = None, actionIndexInGroup = -1,
      isFirstInGroup = False, isLastInGroup = False\<rparr>"

definition groupStep :: "ref \<Rightarrow> nat \<Rightarrow> ref \<Rightarrow> nat \<Rightarrow> nat \<Rightarrow> ExpandedStep" where
  "groupStep a itemIdx item n actionIndex =
     \<lparr>action = a, itemIndex = itemIdx,
      isFromGroup = True, isFromRepeat = False, isFromRecursion = False,
      repeatBlock = None, recursiveRef = None,
      recursionDepth = 0, recursionPhase = None,
      recursionMaxDepth = None, isBaseCase = None,
      isFirstAtDepth = None, isLastAtDepth = None,
      iteration = 0, totalIterations = 1,
      isFirstInIteration = False, isLastInIteration = False,
      isFirstInRepeat = False, isLastInRepeat = False,
      isFirstInRecursion = None, isLastInRecursion = None,
      groupRef = Some item, actionIndexInGroup = int actionIndex,
      isFirstInGroup = (actionIndex = 0),
      isLastInGroup = (int actionIndex = int n - 1)\<rparr>"

definition recursiveStep ::
  "ref \<Rightarrow> nat \<Rightarrow> ref \<Rightarrow> int \<Rightarrow> nat \<Rightarrow> nat \<Rightarrow> RecursiveExpanded \<Rightarrow> ExpandedStep" where
  "recursiveStep a itemIdx item maxD n actionIndex expandedItem =
     \<lparr>action = a, itemIndex = itemIdx,
      isFromGroup = False, isFromRepeat = False, isFromRecursion = True,
      repeatBlock = None, recursiveRef = Some item,
      recursionDepth = re_depth expandedItem, recursionPhase = Some (re_phase expandedItem),
      recursionMaxDepth = Some maxD, isBaseCase = Some (re_isBaseCase expandedItem),
      isFirstAtDepth = Some (re_isFirstAtDepth expandedItem),
      isLastAtDepth = Some (re_isLastAtDepth expandedItem),
      iteration = 0, totalIterations = 1,
      isFirstInIteration = False, isLastInIteration = False,
      isFirstInRepeat = False, isLastInRepeat = False,
      isFirstInRecursion = Some (actionIndex = 0),
      isLastInRecursion = Some (int actionIndex = int n - 1),
      groupRef = None, actionIndexInGroup = -1,
      isFirstInGroup = False, isLastInGroup = False\<rparr>"

definition plainStep :: "ref \<Rightarrow> nat \<Rightarrow> ExpandedStep" where
  "plainStep item itemIdx =
     \<lparr>action = item, itemIndex = itemIdx,
      isFromGroup = False, isFromRepeat = False, isFromRecursion = False,
      repeatBlock = None, recursiveRef = None,
      recursionDepth = 0, recursionPhase = None,
      recursionMaxDepth = None, isBaseCase = None,
      isFirstAtDepth = None, isLastAtDepth = None,
      iteration = 0, totalIterations = 1,
      isFirstInIteration = False, isLastInIteration = False,
      isFirstInRepeat = False, isLastInRepeat = False,
      isFirstInRecursion = None, isLastInRecursion = None,
      groupRef = None, actionIndexInGroup = -1,
      isFirstInGroup = False, isLastInGroup = False\<rparr>"

definition pushStep :: "ExpandedStep \<Rightarrow> world \<Rightarrow> world" where
  "pushStep s w = w\<lparr>expandedActions := expandedActions w @ [s]\<rparr>"

text \<open>
  The body of \<open>this.items.forEach((item, itemIndex) => ...)\<close>. The cloned actions that
  \<open>getExpandedActions\<close> and \<open>getActions\<close> return are stored as new objects when their
  step is pushed. In the repeat branch the loop carries \<open>lastIteration\<close>; the recursion
  branch's \<open>lastDepth\<close> and \<open>isNewDepth\<close> are never read and are left out.
\<close>

fun ActionQueue_expandItem :: "nat \<Rightarrow> QueueItem \<Rightarrow> world \<Rightarrow> world" where
  "ActionQueue_expandItem itemIdx (ItemRepeatBlock item) w =
     (let expandedRepeat = RepeatBlock_getExpandedActions (heapRepeatBlock w item)
      in snd (foldl
           (\<lambda>(lastIteration, w') (actionIndex, expandedItem).
              let (a, w1) = new_Action (rx_action expandedItem) w'
              in (rx_iteration expandedItem,
                  pushStep (repeatStep a itemIdx item (rb_count (heapRepeatBlock w1 item))
                              expandedRepeat actionIndex expandedItem lastIteration) w1))
           (-1, w) (enumerate 0 expandedRepeat)))"
| "ActionQueue_expandItem itemIdx (ItemGroupReference item) w =
     (let actions = GroupReference_getActions (heapGroupReference w item)
      in foldl
           (\<lambda>w' (actionIndex, act).
              let (a, w1) = new_Action act w'
              in pushStep (groupStep a itemIdx item (length actions) actionIndex) w1)
           w (enumerate 0 actions))"
| "ActionQueue_expandItem itemIdx (ItemRecursiveReference item) w =
     (let expandedRecursive =
            RecursiveReference_getExpandedActions (heapRecursiveReference w item)
      in foldl
           (\<lambda>w' (actionIndex, expandedItem).
              let (a, w1) = new_Action (re_action expandedItem) w'
              in pushStep (recursiveStep a itemIdx item
                             (RecursiveReference_getMaxDepth (heapRecursiveReference w1 item))
                             (length expandedRecursive) actionIndex expandedItem) w1)
           w (enumerate 0 expandedRecursive))"
| "ActionQueue_expandItem itemIdx (ItemAction item) w = pushStep (plainStep item itemIdx) w"

definition ActionQueue_expandItems :: "world \<Rightarrow> world" where
  "ActionQueue_expandItems w =
     foldl (\<lambda>w' (itemIdx, item). ActionQueue_expandItem itemIdx item w')
       (w\<lparr>expandedActions := []\<rparr>) (enumerate 0 (items w))"

definition ActionQueue_getCurrentItemInfo :: "world \<Rightarrow> ExpandedStep option" where
  "ActionQueue_getCurrentItemInfo w =
     (if expandedIndex w < length (expandedActions w)
      then Some (expandedActions w ! expandedIndex w) else None)"

definition ActionQueue_getCurrentAction :: "world \<Rightarrow> ref option" where
  "ActionQueue_getCurrentAction w =
     (if expandedIndex w < length (expandedActions w)
      then Some (action (expandedActions w ! expandedIndex w)) else None)"

subsection \<open>Playback\<close>

text \<open>
  The statements that \<open>start()\<close> runs on \<open>currentInfo\<close> and \<open>update()\<close> runs on
  \<open>nextInfo\<close> (the same sequence in both): the step's action is started, the opening
  boundary callbacks are called, then \<open>onActionStart\<close>.
\<close>

definition ActionQueue_enterStep :: "ExpandedStep \<Rightarrow> world \<Rightarrow> world" where
  "ActionQueue_enterStep info w =
     (let w1 = modifyAction (action info) Action_start w;
          w2 = (case repeatBlock info of
                  Some rb \<Rightarrow>
                    if isFirstInRepeat info
                    then fire (onRepeatStart rb (itemIndex info))
                           (modifyRepeatBlock rb (\<lambda>b. b\<lparr>rb_isExecuting := True\<rparr>) w1)
                    else w1
                | None \<Rightarrow> w1);
          w3 = (case repeatBlock info of
                  Some rb \<Rightarrow>
                    if isFirstInIteration info
                    then fire (onRepeatIteration rb (iteration info) (totalIterations info)) w2
                    else w2
                | None \<Rightarrow> w2);
          w4 = (case recursiveRef info of
                  Some rr \<Rightarrow>
                    if isFirstInRecursion info = Some True
                    then fire (onRecursionStart rr (itemIndex info))
                           (modifyRecursiveReference rr (\<lambda>r. r\<lparr>rr_isExecuting := True\<rparr>) w3)
                    else w3
                | None \<Rightarrow> w3);
          w5 = (if isFromRecursion info \<and> isFirstAtDepth info = Some True
                then fire (onRecursionDepthChange (recursiveRef info) (recursionDepth info)
                             (recursionPhase info)) w4
                else w4);
          w6 = (case groupRef info of
                  Some gr \<Rightarrow>
                    if isFirstInGroup info
                    then fire (onGroupStart gr (itemIndex info))
                           (modifyGroupReference gr (\<lambda>r. r\<lparr>gr_isExecuting := True\<rparr>) w5)
                    else w5
                | None \<Rightarrow> w5)
      in fire (onActionStart (action info) (expandedIndex w6) info) w6)"

text \<open>
  The closing boundary checks of \<open>update()\<close>, run after \<open>onActionComplete\<close> and before
  the cursor moves.
\<close>

definition ActionQueue_leaveStep :: "ExpandedStep \<Rightarrow> world \<Rightarrow> world" where
  "ActionQueue_leaveStep info w =
     (let w1 = (case repeatBlock info of
                  Some rb \<Rightarrow>
                    if isLastInIteration info
                    then (let hasMoreIterations = (iteration info < totalIterations info - 1)
                          in if \<not> hasMoreIterations \<and> isLastInRepeat info
                             then fire (onRepeatComplete rb (itemIndex info))
                                    (modifyRepeatBlock rb
                                       (\<lambda>b. b\<lparr>rb_isComplete := True, rb_isExecuting := False\<rparr>) w)
                             else w)
                    else w
                | None \<Rightarrow> w);
          w2 = (case groupRef info of
                  Some gr \<Rightarrow>
                    if isLastInGroup info
                    then fire (onGroupComplete gr (itemIndex info))
                           (modifyGroupReference gr
                              (\<lambda>r. r\<lparr>gr_isComplete := True, gr_isExecuting := False\<rparr>) w1)
                    else w1
                | None \<Rightarrow> w1)
      in (case recursiveRef info of
            Some rr \<Rightarrow>
              if isLastInRecursion info = Some True
              then fire (onRecursionComplete rr (itemIndex info))
                     (modifyRecursiveReference rr
                        (\<lambda>r. r\<lparr>rr_isComplete := True, rr_isExecuting := False\<rparr>) w2)
              else w2
          | None \<Rightarrow> w2))"

definition ActionQueue_start :: "world \<Rightarrow> world" where
  "ActionQueue_start w =
     (if length (items w) = 0 then w
      else
        let w1 = (if state w = COMPLETE then ActionQueue_reset w else w);
            w2 = ActionQueue_expandItems w1
        in if length (expandedActions w2) = 0 then w2
           else
             let w3 = w2\<lparr>state := RUNNING\<rparr>;
                 w4 = (case ActionQueue_getCurrentItemInfo w3 of
                         Some currentInfo \<Rightarrow> ActionQueue_enterStep currentInfo w3
                       | None \<Rightarrow> w3)
             in ActionQueue_notifyChange w4)"

definition ActionQueue_pause :: "world \<Rightarrow> world" where
  "ActionQueue_pause w = (if state w = RUNNING then w\<lparr>state := PAUSED\<rparr> else w)"

definition ActionQueue_resume :: "world \<Rightarrow> world" where
  "ActionQueue_resume w = (if state w = PAUSED then w\<lparr>state := RUNNING\<rparr> else w)"

text \<open>The object that \<open>update()\<close> returns.\<close>

record UpdateResult =
  res_action :: "ref option"
  res_progress :: jsnum
  res_direction :: "int \<times> int"
  res_actionComplete :: bool
  res_groupInfo :: "ExpandedStep option"

definition emptyResult :: UpdateResult where
  "emptyResult =
     \<lparr>res_action = None, res_progress = Num 0, res_direction = (0, 0),
      res_actionComplete = False, res_groupInfo = None\<rparr>"

definition ActionQueue_update :: "rat \<Rightarrow> world \<Rightarrow> UpdateResult \<times> world" where
  "ActionQueue_update deltaTime w =
     (if state w \<noteq> RUNNING then (emptyResult, w)
      else
        case ActionQueue_getCurrentItemInfo w of
          None \<Rightarrow> (emptyResult, fire onQueueComplete (w\<lparr>state := COMPLETE\<rparr>))
        | Some currentInfo \<Rightarrow>
            let currentAction = action currentInfo;
                (a', p) = Action_update (heapAction w currentAction) deltaTime;
                w1 = w\<lparr>heapAction := (heapAction w)(currentAction := a')\<rparr>;
                result = emptyResult\<lparr>res_action := Some currentAction, res_progress := p,
                           res_direction := Action_getDirection a',
                           res_groupInfo := Some currentInfo\<rparr>
            in if isComplete a'
               then
                 let w2 = fire (onActionComplete currentAction (expandedIndex w1) currentInfo) w1;
                     w3 = ActionQueue_leaveStep currentInfo w2;
                     w4 = w3\<lparr>expandedIndex := expandedIndex w3 + 1\<rparr>;
                     w5 = (case ActionQueue_getCurrentItemInfo w4 of
                             Some nextInfo \<Rightarrow> ActionQueue_enterStep nextInfo w4
                           | None \<Rightarrow> fire onQueueComplete (w4\<lparr>state := COMPLETE\<rparr>))
                 in (result\<lparr>res_actionComplete := True\<rparr>, ActionQueue_notifyChange w5)
               else (result, w1))"

subsection \<open>Queries\<close>

definition ActionQueue_size :: "world \<Rightarrow> nat" where
  "ActionQueue_size w = length (items w)"

text \<open>
  \<open>item.isGroupReference && item.isGroupReference()\<close>: a repeat block answers false, an
  action and a recursive reference have no such method.
\<close>

fun isGroupReference :: "QueueItem \<Rightarrow> bool" where
  "isGroupReference (ItemGroupReference r) = True"
| "isGroupReference _ = False"

fun itemGroupSize :: "world \<Rightarrow> QueueItem \<Rightarrow> nat" where
  "itemGroupSize w (ItemGroupReference r) = ActionGroup_size (gr_group (heapGroupReference w r))"
| "itemGroupSize w _ = 0"

definition ActionQueue_totalActions :: "world \<Rightarrow> nat" where
  "ActionQueue_totalActions w =
     foldl (\<lambda>count item. if isGroupReference item then count + itemGroupSize w item
                          else count + 1)
       0 (items w)"

definition ActionQueue_isRunning :: "world \<Rightarrow> bool" where
  "ActionQueue_isRunning w = (state w = RUNNING)"

section \<open>Sequences of operations\<close>

datatype Op =
  OpStart
| OpUpdate rat
| OpPause
| OpResume
| OpStop
| OpReset
| OpClear
| OpAdd QueueItem
| OpRemoveAt int

fun applyOp :: "Op \<Rightarrow> world \<Rightarrow> world" where
  "applyOp OpStart w = ActionQueue_start w"
| "applyOp (OpUpdate deltaTime) w = snd (ActionQueue_update deltaTime w)"
| "applyOp OpPause w = ActionQueue_pause w"
| "applyOp OpResume w = ActionQueue_resume w"
| "applyOp OpStop w = ActionQueue_stop w"
| "applyOp OpReset w = ActionQueue_reset w"
| "applyOp OpClear w = ActionQueue_clear w"
| "applyOp (OpAdd item) w = snd (ActionQueue_add item w)"
| "applyOp (OpRemoveAt index) w = snd (ActionQueue_removeAt index w)"

fun run :: "Op list \<Rightarrow> world \<Rightarrow> world" where
  "run [] w = w"
| "run (op # ops) w = run ops (applyOp op w)"

section \<open>Callback handlers that act on the queue\<close>

text \<open>
  A callback slot holds a function of the presentation layer, and that function may
  itself call the queue: the game's \<open>onActionComplete\<close> handler calls
  \<open>checkTargetCollision()\<close>, which calls \<open>this.actionQueue.stop()\<close> when the ball has
  reached the finish cell, in the middle of \<open>update()\<close>. A set of handlers is a function
  from the call (the slot and its arguments, an \<open>Event\<close>) to what the handler does to the
  program state. \<open>callHandler\<close> records the call and runs the handler; the operations
  below are the operations of the queue with \<open>callHandler\<close> at every place where the
  source calls a slot. After a handler returns, the source goes on with its local
  variables (\<open>currentInfo\<close>, \<open>nextInfo\<close>, \<open>currentAction\<close>) and reads the fields
  (\<open>this.expandedIndex\<close>, \<open>this.expandedActions\<close>, \<open>this.state\<close>) afresh; so do the
  definitions. \<open>pause\<close>, \<open>resume\<close>, \<open>stop\<close>, \<open>reset\<close> and \<open>expandItems\<close> call no slot.
\<close>

type_synonym Handlers = "Event \<Rightarrow> world \<Rightarrow> world"

text \<open>No slot is set, or every handler only observes.\<close>

definition noHandlers :: Handlers where
  "noHandlers = (\<lambda>e w. w)"

definition callHandler :: "Handlers \<Rightarrow> Event \<Rightarrow> world \<Rightarrow> world" where
  "callHandler h e w = h e (fire e w)"

definition ActionQueue_notifyChange_with :: "Handlers \<Rightarrow> world \<Rightarrow> world" where
  "ActionQueue_notifyChange_with h w = callHandler h (onQueueChange (items w) (currentIndex w)) w"

definition ActionQueue_add_with :: "Handlers \<Rightarrow> QueueItem \<Rightarrow> world \<Rightarrow> bool \<times> world" where
  "ActionQueue_add_with h item w =
     (if int (length (items w)) \<ge> maxSize w then (False, w)
      else if state w = RUNNING then (False, w)
      else (True, ActionQueue_notifyChange_with h (w\<lparr>items := items w @ [item]\<rparr>)))"

definition ActionQueue_removeAt_with ::
  "Handlers \<Rightarrow> int \<Rightarrow> world \<Rightarrow> QueueItem option \<times> world" where
  "ActionQueue_removeAt_with h index w =
     (if state w = RUNNING then (None, w)
      else if index < 0 \<or> index \<ge> int (length (items w)) then (None, w)
      else (Some (items w ! nat index),
            ActionQueue_notifyChange_with h
              (w\<lparr>items := take (nat index) (items w) @ drop (Suc (nat index)) (items w)\<rparr>)))"

definition ActionQueue_clear_with :: "Handlers \<Rightarrow> world \<Rightarrow> world" where
  "ActionQueue_clear_with h w =
     (let w1 = (if state w = RUNNING then ActionQueue_stop w else w)
      in ActionQueue_notifyChange_with h
           (w1\<lparr>items := [], expandedActions := [], currentIndex := 0,
               expandedIndex := 0, state := IDLE\<rparr>))"

definition ActionQueue_enterStep_with :: "Handlers \<Rightarrow> ExpandedStep \<Rightarrow> world \<Rightarrow> world" where
  "ActionQueue_enterStep_with h info w =
     (let w1 = modifyAction (action info) Action_start w;
          w2 = (case repeatBlock info of
                  Some rb \<Rightarrow>
                    if isFirstInRepeat info
                    then callHandler h (onRepeatStart rb (itemIndex info))
                           (modifyRepeatBlock rb (\<lambda>b. b\<lparr>rb_isExecuting := True\<rparr>) w1)
                    else w1
                | None \<Rightarrow> w1);
          w3 = (case repeatBlock info of
                  Some rb \<Rightarrow>
                    if isFirstInIteration info
                    then callHandler h
                           (onRepeatIteration rb (iteration info) (totalIterations info)) w2
                    else w2
                | None \<Rightarrow> w2);
          w4 = (case recursiveRef info of
                  Some rr \<Rightarrow>
                    if isFirstInRecursion info = Some True
                    then callHandler h (onRecursionStart rr (itemIndex info))
                           (modifyRecursiveReference rr (\<lambda>r. r\<lparr>rr_isExecuting := True\<rparr>) w3)
                    else w3
                | None \<Rightarrow> w3);
          w5 = (if isFromRecursion info \<and> isFirstAtDepth info = Some True
                then callHandler h
                       (onRecursionDepthChange (recursiveRef info) (recursionDepth info)
                          (recursionPhase info)) w4
                else w4);
          w6 = (case groupRef info of
                  Some gr \<Rightarrow>
                    if isFirstInGroup info
                    then callHandler h (onGroupStart gr (itemIndex info))
                           (modifyGroupReference gr (\<lambda>r. r\<lparr>gr_isExecuting := True\<rparr>) w5)
                    else w5
                | None \<Rightarrow> w5)
      in callHandler h (onActionStart (action info) (expandedIndex w6) info) w6)"

definition ActionQueue_leaveStep_with :: "Handlers \<Rightarrow> ExpandedStep \<Rightarrow> world \<Rightarrow> world" where
  "ActionQueue_leaveStep_with h info w =
     (let w1 = (case repeatBlock info of
                  Some rb \<Rightarrow>
                    if isLastInIteration info
                    then (let hasMoreIterations = (iteration info < totalIterations info - 1)
                          in if \<not> hasMoreIterations \<and> isLastInRepeat info
                             then callHandler h (onRepeatComplete rb (itemIndex info))
                                    (modifyRepeatBlock rb
                                       (\<lambda>b. b\<lparr>rb_isComplete := True, rb_isExecuting := False\<rparr>) w)
                             else w)
                    else w
                | None \<Rightarrow> w);
          w2 = (case groupRef info of
                  Some gr \<Rightarrow>
                    if isLastInGroup info
                    then callHandler h (onGroupComplete gr (itemIndex info))
                           (modifyGroupReference gr
                              (\<lambda>r. r\<lparr>gr_isComplete := True, gr_isExecuting := False\<rparr>) w1)
                    else w1
                | None \<Rightarrow> w1)
      in (case recursiveRef info of
            Some rr \<Rightarrow>
              if isLastInRecursion info = Some True
              then callHandler h (onRecursionComplete rr (itemIndex info))
                     (modifyRecursiveReference rr
                        (\<lambda>r. r\<lparr>rr_isComplete := True, rr_isExecuting := False\<rparr>) w2)
              else w2
          | None \<Rightarrow> w2))"

definition ActionQueue_start_with :: "Handlers \<Rightarrow> world \<Rightarrow> world" where
  "ActionQueue_start_with h w =
     (if length (items w) = 0 then w
      else
        let w1 = (if state w = COMPLETE then ActionQueue_reset w else w);
            w2 = ActionQueue_expandItems w1
        in if length (expandedActions w2) = 0 then w2
           else
             let w3 = w2\<lparr>state := RUNNING\<rparr>;
                 w4 = (case ActionQueue_getCurrentItemInfo w3 of
                         Some currentInfo \<Rightarrow> ActionQueue_enterStep_with h currentInfo w3
                       | None \<Rightarrow> w3)
             in ActionQueue_notifyChange_with h w4)"

definition ActionQueue_update_with :: "Handlers \<Rightarrow> rat \<Rightarrow> world \<Rightarrow> UpdateResult \<times> world" where
  "ActionQueue_update_with h deltaTime w =
     (if state w \<noteq> RUNNING then (emptyResult, w)
      else
        case ActionQueue_getCurrentItemInfo w of
          None \<Rightarrow> (emptyResult, callHandler h onQueueComplete (w\<lparr>state := COMPLETE\<rparr>))
        | Some currentInfo \<Rightarrow>
            let currentAction = action currentInfo;
                (a', p) = Action_update (heapAction w currentAction) deltaTime;
                w1 = w\<lparr>heapAction := (heapAction w)(currentAction := a')\<rparr>;
                result = emptyResult\<lparr>res_action := Some currentAction, res_progress := p,
                           res_direction := Action_getDirection a',
                           res_groupInfo := Some currentInfo\<rparr>
            in if isComplete a'
               then
                 let w2 = callHandler h
                            (onActionComplete currentAction (expandedIndex w1) currentInfo) w1;
                     w3 = ActionQueue_leaveStep_with h currentInfo w2;
                     w4 = w3\<lparr>expandedIndex := expandedIndex w3 + 1\<rparr>;
                     w5 = (case ActionQueue_getCurrentItemInfo w4 of
                             Some nextInfo \<Rightarrow> ActionQueue_enterStep_with h nextInfo w4
                           | None \<Rightarrow> callHandler h onQueueComplete (w4\<lparr>state := COMPLETE\<rparr>))
                 in (result\<lparr>res_actionComplete := True\<rparr>, ActionQueue_notifyChange_with h w5)
               else (result, w1))"

fun applyOp_with :: "Handlers \<Rightarrow> Op \<Rightarrow> world \<Rightarrow> world" where
  "applyOp_with h OpStart w = ActionQueue_start_with h w"
| "applyOp_with h (OpUpdate deltaTime) w = snd (ActionQueue_update_with h deltaTime w)"
| "applyOp_with h OpPause w = ActionQueue_pause w"
| "applyOp_with h OpResume w = ActionQueue_resume w"
| "applyOp_with h OpStop w = ActionQueue_stop w"
| "applyOp_with h OpReset w = ActionQueue_reset w"
| "applyOp_with h OpClear w = ActionQueue_clear_with h w"
| "applyOp_with h (OpAdd item) w = snd (ActionQueue_add_with h item w)"
| "applyOp_with h (OpRemoveAt index) w = snd (ActionQueue_removeAt_with h index w)"

fun run_with :: "Handlers \<Rightarrow> Op list \<Rightarrow> world \<Rightarrow> world" where
  "run_with h [] w = w"
| "run_with h (op # ops) w = run_with h ops (applyOp_with h op w)"

text \<open>
  A sequence in which \<open>start()\<close> is only called on an idle or a complete queue (the two
  states that \<open>start()\<close> itself provides for).
\<close>

fun startsFromRest :: "Handlers \<Rightarrow> Op list \<Rightarrow> world \<Rightarrow> bool" where
  "startsFromRest h [] w = True"
| "startsFromRest h (op # ops) w =
     ((if op = OpStart then state w = IDLE \<or> state w = COMPLETE else True)
      \<and> startsFromRest h ops (applyOp_with h op w))"

text \<open>
  Handlers that leave the playback fields of the queue as they are; a handler that
  calls \<open>start\<close>, \<open>stop\<close>, \<open>reset\<close>, \<open>clear\<close>, \<open>pause\<close>, \<open>resume\<close> or \<open>update\<close> is not of this kind.
\<close>

definition keepsPlayback :: "Handlers \<Rightarrow> bool" where
  "keepsPlayback h =
     (\<forall>e w. state (h e w) = state w \<and> expandedIndex (h e w) = expandedIndex w
            \<and> expandedActions (h e w) = expandedActions w)"

text \<open>
  The game's handlers as far as they act on the queue, on a level whose finish cell the
  ball reaches with the action that completes: \<open>onActionComplete\<close> calls \<open>stop()\<close>.
\<close>

fun stopAtFinish :: Handlers where
  "stopAtFinish (onActionComplete a i s) w = ActionQueue_stop w"
| "stopAtFinish _ w = w"

section \<open>Notions used to state the properties\<close>

text \<open>Which callback an entry of the log is a call of.\<close>

fun isActionCompleteEvent :: "Event \<Rightarrow> bool" where
  "isActionCompleteEvent (onActionComplete a i s) = True"
| "isActionCompleteEvent _ = False"

fun isQueueCompleteEvent :: "Event \<Rightarrow> bool" where
  "isQueueCompleteEvent onQueueComplete = True"
| "isQueueCompleteEvent _ = False"

text \<open>
  The position of the cursor by queue state: an idle queue has an empty expansion and
  the cursor at 0, a running or paused queue has the cursor on a step, a complete queue
  has it just past the last step.
\<close>

definition cursorInvariant :: "world \<Rightarrow> bool" where
  "cursorInvariant w =
     (case state w of
        IDLE \<Rightarrow> expandedIndex w = 0 \<and> expandedActions w = []
      | RUNNING \<Rightarrow> expandedIndex w < length (expandedActions w)
      | PAUSED \<Rightarrow> expandedIndex w < length (expandedActions w)
      | COMPLETE \<Rightarrow> expandedIndex w = length (expandedActions w))"

text \<open>The number of steps that \<open>expandItems\<close> pushes for one item of the queue.\<close>

fun itemExpansionLength :: "world \<Rightarrow> QueueItem \<Rightarrow> nat" where
  "itemExpansionLength w (ItemAction r) = 1"
| "itemExpansionLength w (ItemGroupReference r) =
     length (GroupReference_getActions (heapGroupReference w r))"
| "itemExpansionLength w (ItemRepeatBlock r) =
     length (RepeatBlock_getExpandedActions (heapRepeatBlock w r))"
| "itemExpansionLength w (ItemRecursiveReference r) =
     length (RecursiveReference_getExpandedActions (heapRecursiveReference w r))"

section \<open>Program states used in the examples\<close>

text \<open>A state in which no object has been allocated and no queue constructed yet.\<close>

definition emptyStore :: world where
  "emptyStore =
     \<lparr>heapAction = (\<lambda>_. Action_new WAIT actionDuration),
      heapGroupReference =
        (\<lambda>_. GroupReference_new \<lparr>ag_name = [], ag_color = [], ag_actions = []\<rparr>),
      heapRepeatBlock = (\<lambda>_. RepeatBlock_new DEFAULT_REPETITIONS),
      heapRecursiveReference =
        (\<lambda>_. RecursiveReference_new
                \<lparr>rg_id = 0, rg_name = [], rg_color = [], preActions = [], postActions = [],
                 maxDepth = DEFAULT_RECURSION_DEPTH, rg_currentDepth = 0,
                 rg_isComplete = False, rg_isExecuting = False\<rparr>),
      nextRef = 0, items = [], maxSize = 0, currentIndex = 0, state = IDLE,
      expandedActions = [], expandedIndex = 0, fired = []\<rparr>"

text \<open>The recursive group of scenario C: \<open>pre = [Right]\<close>, \<open>post = [Down]\<close>, depth 2.\<close>

definition scenarioGroup :: RecursiveGroup where
  "scenarioGroup =
     \<lparr>rg_id = 1, rg_name = ''R1'', rg_color = ''#FF6B6B'',
      preActions = [Action_new MOVE_RIGHT actionDuration],
      postActions = [Action_new MOVE_DOWN actionDuration],
      maxDepth = 2, rg_currentDepth = 0, rg_isComplete = False, rg_isExecuting = False\<rparr>"

text \<open>
  Scenario B: a repeat block built by \<open>new RepeatBlock(3)\<close> and \<open>addItem(Right)\<close>, placed
  alone in a new queue by \<open>addRepeatBlock\<close>.
\<close>

definition scenarioRepeatWorld :: world where
  "scenarioRepeatWorld =
     (let b = snd (RepeatBlock_addItem (RepeatBlock_new 3)
                     (RepeatAction (Action_new MOVE_RIGHT actionDuration)));
          (r, w) = new_RepeatBlock b (ActionQueue_new maxQueueSize emptyStore)
      in snd (ActionQueue_addRepeatBlock r w))"

text \<open>A store with three action objects (Up, Right, Down at the addresses 0, 1, 2).\<close>

definition threeActionStore :: world where
  "threeActionStore =
     snd (new_Action (Action_new MOVE_DOWN actionDuration)
       (snd (new_Action (Action_new MOVE_RIGHT actionDuration)
         (snd (new_Action (Action_new MOVE_UP actionDuration) emptyStore)))))"

text \<open>
  Runs of a new queue over that store: one that plays two actions to the end with a
  pause in between; one that removes two items while paused and starts again; one that
  starts and stops.
\<close>

definition playOps :: "Op list" where
  "playOps =
     [OpAdd (ItemAction 0), OpAdd (ItemAction 1), OpStart, OpUpdate 300, OpPause, OpResume,
      OpUpdate 300]"

definition slipOps :: "Op list" where
  "slipOps =
     [OpAdd (ItemAction 0), OpAdd (ItemAction 1), OpAdd (ItemAction 2), OpStart,
      OpUpdate 300, OpUpdate 300, OpPause, OpRemoveAt 0, OpRemoveAt 0, OpStart]"

definition stopOps :: "Op list" where
  "stopOps = [OpAdd (ItemAction 0), OpStart, OpStop]"

text \<open>A run of one action that completes in a single update.\<close>

definition finishOps :: "Op list" where
  "finishOps = [OpAdd (ItemAction 0), OpStart, OpUpdate 300]"

text \<open>A running queue of the three actions, the cursor on the first.\<close>

definition startedThree :: world where
  "startedThree =
     run [OpAdd (ItemAction 0), OpAdd (ItemAction 1), OpAdd (ItemAction 2), OpStart]
       (ActionQueue_new maxQueueSize threeActionStore)"

text \<open>A new queue whose only item is \<open>new RepeatBlock(2)\<close>, to which no item was added.\<close>

definition emptyRepeatWorld :: world where
  "emptyRepeatWorld =
     (let (r, w) = new_RepeatBlock (RepeatBlock_new 2) (ActionQueue_new maxQueueSize emptyStore)
      in snd (ActionQueue_addRepeatBlock r w))"

text \<open>
  Scenario A: a new queue to which \<open>addByType(MOVE_UP)\<close> and \<open>addByType(MOVE_RIGHT)\<close>
  have been applied.
\<close>

definition scenarioQueue :: world where
  "scenarioQueue =
     snd (ActionQueue_addByType MOVE_RIGHT
       (snd (ActionQueue_addByType MOVE_UP (ActionQueue_new maxQueueSize emptyStore))))"

section \<open>Clamping of the depth and the count\<close>

lemma setMaxDepth_value:
  "maxDepth (RecursiveGroup_setMaxDepth g d) = (if d < 1 then 1 else if 5 < d then 5 else d)"
  by (simp add: RecursiveGroup_setMaxDepth_def MAX_RECURSION_DEPTH_def)

lemma setCount_value:
  "rb_count (RepeatBlock_setCount b n) = (if n < 1 then 1 else if 99 < n then 99 else n)"
  by (simp add: RepeatBlock_setCount_def MAX_REPETITIONS_def)

text \<open>
  Claim C8. For every integer \<open>d\<close>, negative, zero or above the maximum,
  \<open>RecursiveGroup.setMaxDepth(d)\<close> stores the clamp of \<open>d\<close> into \<open>[1, 5]\<close>, and for every
  integer \<open>n\<close>, \<open>RepeatBlock.setCount(n)\<close> stores the clamp of \<open>n\<close> into \<open>[1, 99]\<close>.
\<close>

theorem C8_setMaxDepth_setCount_clamp:
  "1 \<le> maxDepth (RecursiveGroup_setMaxDepth g d)
   \<and> maxDepth (RecursiveGroup_setMaxDepth g d) \<le> 5
   \<and> maxDepth (RecursiveGroup_setMaxDepth g d) = (if d < 1 then 1 else if 5 < d then 5 else d)
   \<and> 1 \<le> rb_count (RepeatBlock_setCount b n)
   \<and> rb_count (RepeatBlock_setCount b n) \<le> 99
   \<and> rb_count (RepeatBlock_setCount b n) = (if n < 1 then 1 else if 99 < n then 99 else n)"
  by (simp add: setMaxDepth_value setCount_value)

theorem C8_setMaxDepth_setCount_clamp_witness:
  "maxDepth (RecursiveGroup_setMaxDepth scenarioGroup (-7)) = 1
   \<and> maxDepth (RecursiveGroup_setMaxDepth scenarioGroup 0) = 1
   \<and> maxDepth (RecursiveGroup_setMaxDepth scenarioGroup 4) = 4
   \<and> maxDepth (RecursiveGroup_setMaxDepth scenarioGroup 1000) = 5
   \<and> rb_count (RepeatBlock_setCount (RepeatBlock_new 2) (-7)) = 1
   \<and> rb_count (RepeatBlock_setCount (RepeatBlock_new 2) 0) = 1
   \<and> rb_count (RepeatBlock_setCount (RepeatBlock_new 2) 42) = 42
   \<and> rb_count (RepeatBlock_setCount (RepeatBlock_new 2) 1000) = 99"
  using C8_setMaxDepth_setCount_clamp [of scenarioGroup "-7" "RepeatBlock_new 2" "-7"]
        C8_setMaxDepth_setCount_clamp [of scenarioGroup 0 "RepeatBlock_new 2" 0]
        C8_setMaxDepth_setCount_clamp [of scenarioGroup 4 "RepeatBlock_new 2" 42]
        C8_setMaxDepth_setCount_clamp [of scenarioGroup 1000 "RepeatBlock_new 2" 1000]
  by simp

section \<open>Expansion of a recursive group\<close>

lemma pre_length: "length (RecursiveGroup_pre g d) = length (preActions g)"
  by (simp add: RecursiveGroup_pre_def)

lemma post_length: "length (RecursiveGroup_post g d) = length (postActions g)"
  by (simp add: RecursiveGroup_post_def)

lemma expanded_beyond:
  "maxDepth g \<le> depth \<Longrightarrow> RecursiveGroup_getExpandedActions g depth = []"
  by (simp add: RecursiveGroup_getExpandedActions.simps)

lemma expanded_unfold:
  "depth < maxDepth g \<Longrightarrow>
   RecursiveGroup_getExpandedActions g depth =
     RecursiveGroup_pre g depth
     @ (if depth \<noteq> maxDepth g - 1 then RecursiveGroup_getExpandedActions g (depth + 1) else [])
     @ RecursiveGroup_post g depth"
  by (subst RecursiveGroup_getExpandedActions.simps) simp






section \<open>Adding to a repeat block\<close>

lemma addItem_bounded:
  "length (rb_items b) \<le> 2 \<Longrightarrow>
   length (rb_items (foldl (\<lambda>b' i. snd (RepeatBlock_addItem b' i)) b xs)) \<le> 2"
  by (induction xs arbitrary: b) (auto simp: RepeatBlock_addItem_def MAX_ITEMS_IN_REPEAT_def)

text \<open>
  Claim C7. When a repeat block already holds \<open>MAX_ITEMS_IN_REPEAT = 2\<close> items or more,
  \<open>addItem(item)\<close> returns false (a value, not an exception) and leaves the block as it
  is; with fewer than 2 items it appends a clone of the item and returns true. So a
  block that holds at most 2 items holds at most 2 after any sequence of \<open>addItem\<close>
  calls, in particular every block that starts empty.
\<close>

theorem C7_addItem_cap:
  "(2 \<le> length (rb_items b) \<longrightarrow> RepeatBlock_addItem b item = (False, b))
   \<and> (length (rb_items b) < 2 \<longrightarrow>
        RepeatBlock_addItem b item =
          (True, b\<lparr>rb_items := rb_items b @ [RepeatItem_clone item]\<rparr>))
   \<and> (length (rb_items b) \<le> 2 \<longrightarrow>
        length (rb_items (foldl (\<lambda>b' i. snd (RepeatBlock_addItem b' i)) b xs)) \<le> 2)
   \<and> length (rb_items (foldl (\<lambda>b' i. snd (RepeatBlock_addItem b' i)) (RepeatBlock_new n) xs))
        \<le> 2"
proof -
  have "length (rb_items (RepeatBlock_new n)) \<le> 2" by (simp add: RepeatBlock_new_def)
  then show ?thesis
    using addItem_bounded [of b xs] addItem_bounded [of "RepeatBlock_new n" xs]
    by (simp add: RepeatBlock_addItem_def MAX_ITEMS_IN_REPEAT_def)
qed

theorem C7_addItem_cap_witness:
  "fst (RepeatBlock_addItem (RepeatBlock_new 3) (RepeatAction (Action_new MOVE_RIGHT 300)))
   \<and> rb_items (snd (RepeatBlock_addItem (RepeatBlock_new 3)
                      (RepeatAction ((Action_new MOVE_RIGHT 300)\<lparr>progress := Num 1\<rparr>)))) =
       [RepeatAction (Action_new MOVE_RIGHT 300)]
   \<and> RepeatBlock_addItem
       ((RepeatBlock_new 3)\<lparr>rb_items := [RepeatAction (Action_new MOVE_UP 300),
                                         RepeatAction (Action_new MOVE_UP 300)]\<rparr>)
       (RepeatAction (Action_new MOVE_RIGHT 300)) =
       (False, (RepeatBlock_new 3)\<lparr>rb_items := [RepeatAction (Action_new MOVE_UP 300),
                                                 RepeatAction (Action_new MOVE_UP 300)]\<rparr>)
   \<and> length (rb_items (foldl (\<lambda>b' i. snd (RepeatBlock_addItem b' i)) (RepeatBlock_new 3)
        [RepeatAction (Action_new MOVE_UP 300), RepeatAction (Action_new MOVE_DOWN 300),
         RepeatAction (Action_new MOVE_LEFT 300)])) \<le> 2"
  using C7_addItem_cap [of "RepeatBlock_new 3"
          "RepeatAction ((Action_new MOVE_RIGHT 300)\<lparr>progress := Num 1\<rparr>)"
          "[RepeatAction (Action_new MOVE_UP 300), RepeatAction (Action_new MOVE_DOWN 300),
            RepeatAction (Action_new MOVE_LEFT 300)]" 3]
        C7_addItem_cap [of "RepeatBlock_new 3" "RepeatAction (Action_new MOVE_RIGHT 300)" "[]" 3]
        C7_addItem_cap [of "(RepeatBlock_new 3)\<lparr>rb_items := [RepeatAction (Action_new MOVE_UP 300),
                                         RepeatAction (Action_new MOVE_UP 300)]\<rparr>"
          "RepeatAction (Action_new MOVE_RIGHT 300)" "[]" 3]
  by (simp add: RepeatBlock_new_def Action_new_def Action_clone_def)

section \<open>Pause and resume\<close>

text \<open>
  Claim C6. In any state of the queue, \<open>pause()\<close> followed by \<open>resume()\<close> changes nothing
  but the field \<open>state\<close>, which ends at \<open>RUNNING\<close> when it was \<open>RUNNING\<close> or \<open>PAUSED\<close> and is
  unchanged otherwise: the cursor \<open>expandedIndex\<close>, the expanded list, every action
  object (so the current action's progress) and the log of callback calls are as
  before, and a running queue is back in exactly the state it was in.
\<close>

theorem C6_pause_resume_frame:
  "ActionQueue_resume (ActionQueue_pause w) =
     w\<lparr>state := (if state w = RUNNING \<or> state w = PAUSED then RUNNING else state w)\<rparr>
   \<and> expandedIndex (ActionQueue_resume (ActionQueue_pause w)) = expandedIndex w
   \<and> expandedActions (ActionQueue_resume (ActionQueue_pause w)) = expandedActions w
   \<and> heapAction (ActionQueue_resume (ActionQueue_pause w)) = heapAction w
   \<and> fired (ActionQueue_resume (ActionQueue_pause w)) = fired w
   \<and> fired (ActionQueue_pause w) = fired w
   \<and> state (ActionQueue_pause w) = (if state w = RUNNING then PAUSED else state w)
   \<and> (state w = RUNNING \<longrightarrow> ActionQueue_resume (ActionQueue_pause w) = w)"
  by (simp add: ActionQueue_resume_def ActionQueue_pause_def)

theorem C6_pause_resume_frame_witness:
  "ActionQueue_resume (ActionQueue_pause (emptyStore\<lparr>state := RUNNING\<rparr>)) =
     emptyStore\<lparr>state := RUNNING\<rparr>
   \<and> state (ActionQueue_pause (emptyStore\<lparr>state := RUNNING\<rparr>)) = PAUSED
   \<and> state (ActionQueue_resume (ActionQueue_pause (emptyStore\<lparr>state := PAUSED\<rparr>))) = RUNNING
   \<and> state (ActionQueue_resume (ActionQueue_pause (emptyStore\<lparr>state := COMPLETE\<rparr>))) = COMPLETE
   \<and> state (ActionQueue_resume (ActionQueue_pause emptyStore)) = IDLE"
  using C6_pause_resume_frame [of "emptyStore\<lparr>state := RUNNING\<rparr>"]
        C6_pause_resume_frame [of "emptyStore\<lparr>state := PAUSED\<rparr>"]
        C6_pause_resume_frame [of "emptyStore\<lparr>state := COMPLETE\<rparr>"]
        C6_pause_resume_frame [of emptyStore]
  by (simp add: emptyStore_def)

section \<open>Expansion of a repeat block\<close>

lemma foldl_push: "foldl (\<lambda>acc item. acc @ f item) acc xs = acc @ concat (map f xs)"
  by (induction xs arbitrary: acc) simp_all

lemma loop_closed_form:
  "RepeatBlock_loop b k allActions =
     allActions @ concat (map (\<lambda>i. concat (map (RepeatBlock_expandItem i) (rb_items b)))
                            [k..rb_count b - 1])"
proof (induction b k allActions rule: RepeatBlock_loop.induct)
  case (1 b k allActions)
  show ?case
  proof (cases "k < rb_count b")
    case True
    have up: "[k..rb_count b - 1] = k # [k + 1..rb_count b - 1]"
      using True by (simp add: upto_rec1)
    show ?thesis
      using True "1.IH" [OF True]
      by (subst RepeatBlock_loop.simps) (simp add: up foldl_push)
  next
    case False
    then show ?thesis by (subst RepeatBlock_loop.simps) simp
  qed
qed

lemma expandItem_iteration:
  "x \<in> set (RepeatBlock_expandItem i item) \<Longrightarrow> rx_iteration x = i \<and> rx_isFromRepeat x"
  by (cases item) auto

text \<open>
  The loop invariant: the entries pushed so far are in iteration order and belong to
  earlier iterations than the one about to run.
\<close>

lemma loop_sorted:
  "sorted (map rx_iteration allActions) \<Longrightarrow>
   \<forall>x \<in> set allActions. rx_iteration x < k \<Longrightarrow>
   sorted (map rx_iteration (RepeatBlock_loop b k allActions))"
proof (induction b k allActions rule: RepeatBlock_loop.induct)
  case (1 b k allActions)
  show ?case
  proof (cases "k < rb_count b")
    case True
    let ?pass = "concat (map (RepeatBlock_expandItem k) (rb_items b))"
    have all: "\<forall>x \<in> set ?pass. rx_iteration x = k"
      by (auto dest: expandItem_iteration)
    then have "map rx_iteration ?pass = replicate (length ?pass) k"
      by (simp add: map_replicate_const [symmetric] cong: map_cong)
    then have s1: "sorted (map rx_iteration ?pass)" by (simp add: sorted_replicate)
    have s2: "sorted (map rx_iteration (allActions @ ?pass))"
      using "1.prems" s1 all by (fastforce simp: sorted_append)
    have s3: "\<forall>x \<in> set (allActions @ ?pass). rx_iteration x < k + 1"
      using "1.prems"(2) all by fastforce
    have "sorted (map rx_iteration (RepeatBlock_loop b (k + 1) (allActions @ ?pass)))"
      using "1.IH" [OF True] s2 s3 by (simp add: foldl_push)
    then show ?thesis using True by (subst RepeatBlock_loop.simps) (simp add: foldl_push)
  next
    case False
    then show ?thesis using "1.prems"(1) by (subst RepeatBlock_loop.simps) simp
  qed
qed

lemma expanded_sorted: "sorted (map rx_iteration (RepeatBlock_getExpandedActions b))"
  unfolding RepeatBlock_getExpandedActions_def by (rule loop_sorted) simp_all

lemma repeat_scenario:
  assumes "rb_count b = 3" and "rb_items b = [RepeatAction a]"
  shows "RepeatBlock_getExpandedActions b =
     [\<lparr>rx_action = Action_clone a, rx_iteration = 0, rx_isFromRepeat = True\<rparr>,
      \<lparr>rx_action = Action_clone a, rx_iteration = 1, rx_isFromRepeat = True\<rparr>,
      \<lparr>rx_action = Action_clone a, rx_iteration = 2, rx_isFromRepeat = True\<rparr>]"
  using assms
  by (simp add: RepeatBlock_getExpandedActions_def RepeatBlock_loop.simps)

lemma expandItems_scenario:
  assumes "rb_count (heapRepeatBlock w r) = 3"
    and "rb_items (heapRepeatBlock w r) = [RepeatAction a]"
    and "items w = [ItemRepeatBlock r]"
  shows "map (\<lambda>s. (isFromRepeat s, iteration s, isFirstInRepeat s, isLastInRepeat s, itemIndex s,
                    atype (heapAction (ActionQueue_expandItems w) (action s))))
            (expandedActions (ActionQueue_expandItems w)) =
         [(True, 0, True, False, 0, atype a), (True, 1, False, False, 0, atype a),
          (True, 2, False, True, 0, atype a)]"
  using assms
  by (simp add: ActionQueue_expandItems_def repeat_scenario Let_def new_Action_def pushStep_def
      repeatStep_def Action_clone_def Action_new_def)

text \<open>
  Claim C3. \<open>RepeatBlock.getExpandedActions()\<close> is iteration-major, item-minor: it is
  the concatenation, for the iterations \<open>0, ..., count - 1\<close> in order, of the entries
  of the items in their order, each tagged with its iteration; so the iteration tags
  never decrease along the result, and an entry of a smaller iteration stands before
  every entry of a larger one. For a queue whose only item is a repeat block with
  \<open>count = 3\<close> and \<open>items = [Right]\<close>, \<open>expandItems()\<close> produces exactly 3 steps (of the
  queue item 0, each a Right action), all with \<open>isFromRepeat = true\<close>, with iterations
  0, 1, 2 in order, \<open>isFirstInRepeat\<close> true on index 0 only and \<open>isLastInRepeat\<close> true on
  index 2 only.
\<close>

theorem C3_repeat_expansion_order:
  "RepeatBlock_getExpandedActions b =
     concat (map (\<lambda>k. concat (map (RepeatBlock_expandItem k) (rb_items b))) [0..rb_count b - 1])
   \<and> sorted (map rx_iteration (RepeatBlock_getExpandedActions b))
   \<and> (\<forall>i j. i < length (RepeatBlock_getExpandedActions b)
         \<and> j < length (RepeatBlock_getExpandedActions b)
         \<and> rx_iteration (RepeatBlock_getExpandedActions b ! i)
             < rx_iteration (RepeatBlock_getExpandedActions b ! j)
         \<longrightarrow> i < j)
   \<and> (rb_count (heapRepeatBlock w r) = 3
        \<and> rb_items (heapRepeatBlock w r) = [RepeatAction a] \<and> atype a = MOVE_RIGHT
        \<and> items w = [ItemRepeatBlock r] \<longrightarrow>
        length (expandedActions (ActionQueue_expandItems w)) = 3
        \<and> map isFromRepeat (expandedActions (ActionQueue_expandItems w)) = [True, True, True]
        \<and> map iteration (expandedActions (ActionQueue_expandItems w)) = [0, 1, 2]
        \<and> map isFirstInRepeat (expandedActions (ActionQueue_expandItems w)) =
            [True, False, False]
        \<and> map isLastInRepeat (expandedActions (ActionQueue_expandItems w)) =
            [False, False, True]
        \<and> map itemIndex (expandedActions (ActionQueue_expandItems w)) = [0, 0, 0]
        \<and> map (\<lambda>s. atype (heapAction (ActionQueue_expandItems w) (action s)))
              (expandedActions (ActionQueue_expandItems w)) =
            [MOVE_RIGHT, MOVE_RIGHT, MOVE_RIGHT])"
proof -
  let ?G = "RepeatBlock_getExpandedActions b"
  let ?es = "expandedActions (ActionQueue_expandItems w)"
  have p1: "?G = concat (map (\<lambda>k. concat (map (RepeatBlock_expandItem k) (rb_items b)))
                          [0..rb_count b - 1])"
    by (simp add: RepeatBlock_getExpandedActions_def loop_closed_form)
  have p2: "sorted (map rx_iteration ?G)" by (rule expanded_sorted)
  have p3: "\<forall>i j. i < length ?G \<and> j < length ?G
                \<and> rx_iteration (?G ! i) < rx_iteration (?G ! j) \<longrightarrow> i < j"
  proof (intro allI impI)
    fix i j
    assume h: "i < length ?G \<and> j < length ?G \<and> rx_iteration (?G ! i) < rx_iteration (?G ! j)"
    show "i < j"
    proof (rule ccontr)
      assume "\<not> i < j"
      then have "j \<le> i" by simp
      with p2 h have "map rx_iteration ?G ! j \<le> map rx_iteration ?G ! i"
        by (simp add: sorted_iff_nth_mono del: nth_map)
      with h show False by simp
    qed
  qed
  have p4: "rb_count (heapRepeatBlock w r) = 3
        \<and> rb_items (heapRepeatBlock w r) = [RepeatAction a] \<and> atype a = MOVE_RIGHT
        \<and> items w = [ItemRepeatBlock r] \<longrightarrow>
        length ?es = 3
        \<and> map isFromRepeat ?es = [True, True, True]
        \<and> map iteration ?es = [0, 1, 2]
        \<and> map isFirstInRepeat ?es = [True, False, False]
        \<and> map isLastInRepeat ?es = [False, False, True]
        \<and> map itemIndex ?es = [0, 0, 0]
        \<and> map (\<lambda>s. atype (heapAction (ActionQueue_expandItems w) (action s))) ?es =
            [MOVE_RIGHT, MOVE_RIGHT, MOVE_RIGHT]"
  proof
    assume h: "rb_count (heapRepeatBlock w r) = 3
        \<and> rb_items (heapRepeatBlock w r) = [RepeatAction a] \<and> atype a = MOVE_RIGHT
        \<and> items w = [ItemRepeatBlock r]"
    then have m: "map (\<lambda>s. (isFromRepeat s, iteration s, isFirstInRepeat s, isLastInRepeat s,
                     itemIndex s, atype (heapAction (ActionQueue_expandItems w) (action s)))) ?es =
         [(True, 0, True, False, 0, MOVE_RIGHT), (True, 1, False, False, 0, MOVE_RIGHT),
          (True, 2, False, True, 0, MOVE_RIGHT)]"
      using expandItems_scenario [of w r a] by simp
    then obtain s0 s1 s2 where es: "?es = [s0, s1, s2]"
      by (auto simp: map_eq_Cons_conv)
    show "length ?es = 3
        \<and> map isFromRepeat ?es = [True, True, True]
        \<and> map iteration ?es = [0, 1, 2]
        \<and> map isFirstInRepeat ?es = [True, False, False]
        \<and> map isLastInRepeat ?es = [False, False, True]
        \<and> map itemIndex ?es = [0, 0, 0]
        \<and> map (\<lambda>s. atype (heapAction (ActionQueue_expandItems w) (action s))) ?es =
            [MOVE_RIGHT, MOVE_RIGHT, MOVE_RIGHT]"
      using m unfolding es by simp
  qed
  from p1 p2 p3 p4 show ?thesis by (intro conjI)
qed

theorem C3_repeat_expansion_order_witness:
  "map rx_iteration (RepeatBlock_getExpandedActions (heapRepeatBlock scenarioRepeatWorld 0)) =
     [0, 1, 2]
   \<and> items scenarioRepeatWorld = [ItemRepeatBlock 0]
   \<and> length (expandedActions (ActionQueue_expandItems scenarioRepeatWorld)) = 3
   \<and> map isFromRepeat (expandedActions (ActionQueue_expandItems scenarioRepeatWorld)) =
       [True, True, True]
   \<and> map iteration (expandedActions (ActionQueue_expandItems scenarioRepeatWorld)) = [0, 1, 2]
   \<and> map isFirstInRepeat (expandedActions (ActionQueue_expandItems scenarioRepeatWorld)) =
       [True, False, False]
   \<and> map isLastInRepeat (expandedActions (ActionQueue_expandItems scenarioRepeatWorld)) =
       [False, False, True]"
proof -
  have f: "rb_count (heapRepeatBlock scenarioRepeatWorld 0) = 3"
    "rb_items (heapRepeatBlock scenarioRepeatWorld 0) =
       [RepeatAction (Action_new MOVE_RIGHT actionDuration)]"
    "atype (Action_new MOVE_RIGHT actionDuration) = MOVE_RIGHT"
    "items scenarioRepeatWorld = [ItemRepeatBlock 0]"
    by (simp_all add: scenarioRepeatWorld_def RepeatBlock_addItem_def RepeatBlock_new_def
        MAX_ITEMS_IN_REPEAT_def MAX_REPETITIONS_def new_RepeatBlock_def ActionQueue_new_def
        emptyStore_def ActionQueue_addRepeatBlock_def ActionQueue_add_def maxQueueSize_def
        ActionQueue_notifyChange_def fire_def Action_clone_def Action_new_def)
  have g: "[0..2::int] = [0, 1, 2]"
    by (simp add: upto_rec1)
  show ?thesis
    using C3_repeat_expansion_order
            [of "heapRepeatBlock scenarioRepeatWorld 0" scenarioRepeatWorld 0
                "Action_new MOVE_RIGHT actionDuration"]
    by (simp add: f g)
qed


section \<open>What each operation leaves unchanged\<close>

lemma fire_frame [simp]:
  "state (fire e w) = state w" "expandedIndex (fire e w) = expandedIndex w"
  "expandedActions (fire e w) = expandedActions w" "items (fire e w) = items w"
  "maxSize (fire e w) = maxSize w" "currentIndex (fire e w) = currentIndex w"
  "heapAction (fire e w) = heapAction w" "heapRepeatBlock (fire e w) = heapRepeatBlock w"
  "heapGroupReference (fire e w) = heapGroupReference w"
  "heapRecursiveReference (fire e w) = heapRecursiveReference w"
  "nextRef (fire e w) = nextRef w"
  "fired (fire e w) = fired w @ [e]"
  by (simp_all add: fire_def)

lemma modifyAction_frame [simp]:
  "state (modifyAction r f w) = state w" "expandedIndex (modifyAction r f w) = expandedIndex w"
  "expandedActions (modifyAction r f w) = expandedActions w" "items (modifyAction r f w) = items w"
  "maxSize (modifyAction r f w) = maxSize w" "currentIndex (modifyAction r f w) = currentIndex w"
  "heapRepeatBlock (modifyAction r f w) = heapRepeatBlock w"
  "heapGroupReference (modifyAction r f w) = heapGroupReference w"
  "heapRecursiveReference (modifyAction r f w) = heapRecursiveReference w"
  "nextRef (modifyAction r f w) = nextRef w"
  "fired (modifyAction r f w) = fired w"
  "heapAction (modifyAction r f w) = (heapAction w)(r := f (heapAction w r))"
  by (simp_all add: modifyAction_def)

lemma modifyRepeatBlock_frame [simp]:
  "state (modifyRepeatBlock r f w) = state w"
  "expandedIndex (modifyRepeatBlock r f w) = expandedIndex w"
  "expandedActions (modifyRepeatBlock r f w) = expandedActions w"
  "items (modifyRepeatBlock r f w) = items w"
  "maxSize (modifyRepeatBlock r f w) = maxSize w"
  "currentIndex (modifyRepeatBlock r f w) = currentIndex w"
  "heapAction (modifyRepeatBlock r f w) = heapAction w"
  "heapGroupReference (modifyRepeatBlock r f w) = heapGroupReference w"
  "heapRecursiveReference (modifyRepeatBlock r f w) = heapRecursiveReference w"
  "nextRef (modifyRepeatBlock r f w) = nextRef w"
  "fired (modifyRepeatBlock r f w) = fired w"
  "heapRepeatBlock (modifyRepeatBlock r f w) = (heapRepeatBlock w)(r := f (heapRepeatBlock w r))"
  by (simp_all add: modifyRepeatBlock_def)

lemma modifyGroupReference_frame [simp]:
  "state (modifyGroupReference r f w) = state w"
  "expandedIndex (modifyGroupReference r f w) = expandedIndex w"
  "expandedActions (modifyGroupReference r f w) = expandedActions w"
  "items (modifyGroupReference r f w) = items w"
  "maxSize (modifyGroupReference r f w) = maxSize w"
  "currentIndex (modifyGroupReference r f w) = currentIndex w"
  "heapAction (modifyGroupReference r f w) = heapAction w"
  "heapRepeatBlock (modifyGroupReference r f w) = heapRepeatBlock w"
  "heapRecursiveReference (modifyGroupReference r f w) = heapRecursiveReference w"
  "nextRef (modifyGroupReference r f w) = nextRef w"
  "fired (modifyGroupReference r f w) = fired w"
  "heapGroupReference (modifyGroupReference r f w) =
     (heapGroupReference w)(r := f (heapGroupReference w r))"
  by (simp_all add: modifyGroupReference_def)

lemma modifyRecursiveReference_frame [simp]:
  "state (modifyRecursiveReference r f w) = state w"
  "expandedIndex (modifyRecursiveReference r f w) = expandedIndex w"
  "expandedActions (modifyRecursiveReference r f w) = expandedActions w"
  "items (modifyRecursiveReference r f w) = items w"
  "maxSize (modifyRecursiveReference r f w) = maxSize w"
  "currentIndex (modifyRecursiveReference r f w) = currentIndex w"
  "heapAction (modifyRecursiveReference r f w) = heapAction w"
  "heapRepeatBlock (modifyRecursiveReference r f w) = heapRepeatBlock w"
  "heapGroupReference (modifyRecursiveReference r f w) = heapGroupReference w"
  "nextRef (modifyRecursiveReference r f w) = nextRef w"
  "fired (modifyRecursiveReference r f w) = fired w"
  "heapRecursiveReference (modifyRecursiveReference r f w) =
     (heapRecursiveReference w)(r := f (heapRecursiveReference w r))"
  by (simp_all add: modifyRecursiveReference_def)

lemma notifyChange_frame [simp]:
  "state (ActionQueue_notifyChange w) = state w"
  "expandedIndex (ActionQueue_notifyChange w) = expandedIndex w"
  "expandedActions (ActionQueue_notifyChange w) = expandedActions w"
  "items (ActionQueue_notifyChange w) = items w"
  "maxSize (ActionQueue_notifyChange w) = maxSize w"
  "heapAction (ActionQueue_notifyChange w) = heapAction w"
  "heapRepeatBlock (ActionQueue_notifyChange w) = heapRepeatBlock w"
  "heapGroupReference (ActionQueue_notifyChange w) = heapGroupReference w"
  "heapRecursiveReference (ActionQueue_notifyChange w) = heapRecursiveReference w"
  "fired (ActionQueue_notifyChange w) = fired w @ [onQueueChange (items w) (currentIndex w)]"
  by (simp_all add: ActionQueue_notifyChange_def)

lemma enterStep_frame [simp]:
  "state (ActionQueue_enterStep i w) = state w"
  "expandedIndex (ActionQueue_enterStep i w) = expandedIndex w"
  "expandedActions (ActionQueue_enterStep i w) = expandedActions w"
  "items (ActionQueue_enterStep i w) = items w"
  "maxSize (ActionQueue_enterStep i w) = maxSize w"
  "currentIndex (ActionQueue_enterStep i w) = currentIndex w"
  "heapAction (ActionQueue_enterStep i w) = (heapAction w)(action i := Action_start (heapAction w (action i)))"
  by (simp_all add: ActionQueue_enterStep_def Let_def split: option.split)

lemma enterStep_fired:
  "filter isActionCompleteEvent (fired (ActionQueue_enterStep i w)) = filter isActionCompleteEvent (fired w)"
  "filter isQueueCompleteEvent (fired (ActionQueue_enterStep i w)) = filter isQueueCompleteEvent (fired w)"
  by (simp_all add: ActionQueue_enterStep_def Let_def split: option.split)

lemma leaveStep_frame [simp]:
  "state (ActionQueue_leaveStep i w) = state w"
  "expandedIndex (ActionQueue_leaveStep i w) = expandedIndex w"
  "expandedActions (ActionQueue_leaveStep i w) = expandedActions w"
  "items (ActionQueue_leaveStep i w) = items w"
  "maxSize (ActionQueue_leaveStep i w) = maxSize w"
  "currentIndex (ActionQueue_leaveStep i w) = currentIndex w"
  "heapAction (ActionQueue_leaveStep i w) = heapAction w"
  by (simp_all add: ActionQueue_leaveStep_def Let_def split: option.split)

lemma leaveStep_fired:
  "filter isActionCompleteEvent (fired (ActionQueue_leaveStep i w)) = filter isActionCompleteEvent (fired w)"
  "filter isQueueCompleteEvent (fired (ActionQueue_leaveStep i w)) = filter isQueueCompleteEvent (fired w)"
  by (simp_all add: ActionQueue_leaveStep_def Let_def split: option.split)


lemma foldl_frame:
  assumes "\<And>s x. g (f s x) = g s"
  shows "g (foldl f s xs) = g s"
  by (induction xs arbitrary: s) (simp_all add: assms)

lemma foldl_count:
  assumes "\<And>s x. h (f s x) = Suc (h s)"
  shows "h (foldl f s xs) = h s + length xs"
  by (induction xs arbitrary: s) (simp_all add: assms)

lemma new_Action_frame [simp]:
  "state (snd (new_Action a w)) = state w"
  "expandedIndex (snd (new_Action a w)) = expandedIndex w"
  "expandedActions (snd (new_Action a w)) = expandedActions w"
  "items (snd (new_Action a w)) = items w"
  "maxSize (snd (new_Action a w)) = maxSize w"
  "currentIndex (snd (new_Action a w)) = currentIndex w"
  "heapRepeatBlock (snd (new_Action a w)) = heapRepeatBlock w"
  "heapGroupReference (snd (new_Action a w)) = heapGroupReference w"
  "heapRecursiveReference (snd (new_Action a w)) = heapRecursiveReference w"
  "fired (snd (new_Action a w)) = fired w"
  by (simp_all add: new_Action_def)

lemma pushStep_frame [simp]:
  "state (pushStep s w) = state w"
  "expandedIndex (pushStep s w) = expandedIndex w"
  "items (pushStep s w) = items w"
  "maxSize (pushStep s w) = maxSize w"
  "currentIndex (pushStep s w) = currentIndex w"
  "heapAction (pushStep s w) = heapAction w"
  "heapRepeatBlock (pushStep s w) = heapRepeatBlock w"
  "heapGroupReference (pushStep s w) = heapGroupReference w"
  "heapRecursiveReference (pushStep s w) = heapRecursiveReference w"
  "fired (pushStep s w) = fired w"
  "expandedActions (pushStep s w) = expandedActions w @ [s]"
  by (simp_all add: pushStep_def)

lemma expandItem_frame_gen:
  assumes a: "\<And>a w. g (snd (new_Action a w)) = g w" and p: "\<And>s w. g (pushStep s w) = g w"
  shows "g (ActionQueue_expandItem idx item w) = g w"
proof (cases item)
  case (ItemAction r)
  then show ?thesis by (simp add: p)
next
  case (ItemGroupReference r)
  then show ?thesis
    by (simp add: Let_def) (rule foldl_frame, simp add: split_def a p)
next
  case (ItemRepeatBlock r)
  have r: "\<And>f xs s. (\<And>s x. g (snd (f s x)) = g (snd s)) \<Longrightarrow> g (snd (foldl f s xs)) = g (snd s)"
    by (rule foldl_frame [where g = "\<lambda>s. g (snd s)"])
  show ?thesis unfolding ItemRepeatBlock
    by (simp add: Let_def) (subst r, simp_all add: split_def a p)
next
  case (ItemRecursiveReference r)
  then show ?thesis
    by (simp add: Let_def) (rule foldl_frame, simp add: split_def a p)
qed

lemma expandItem_frame [simp]:
  "state (ActionQueue_expandItem idx item w) = state w"
  "expandedIndex (ActionQueue_expandItem idx item w) = expandedIndex w"
  "items (ActionQueue_expandItem idx item w) = items w"
  "maxSize (ActionQueue_expandItem idx item w) = maxSize w"
  "currentIndex (ActionQueue_expandItem idx item w) = currentIndex w"
  "heapRepeatBlock (ActionQueue_expandItem idx item w) = heapRepeatBlock w"
  "heapGroupReference (ActionQueue_expandItem idx item w) = heapGroupReference w"
  "heapRecursiveReference (ActionQueue_expandItem idx item w) = heapRecursiveReference w"
  "fired (ActionQueue_expandItem idx item w) = fired w"
  by (rule expandItem_frame_gen; simp)+

lemma expandItems_frame [simp]:
  "state (ActionQueue_expandItems w) = state w"
  "expandedIndex (ActionQueue_expandItems w) = expandedIndex w"
  "items (ActionQueue_expandItems w) = items w"
  "maxSize (ActionQueue_expandItems w) = maxSize w"
  "currentIndex (ActionQueue_expandItems w) = currentIndex w"
  "heapRepeatBlock (ActionQueue_expandItems w) = heapRepeatBlock w"
  "heapGroupReference (ActionQueue_expandItems w) = heapGroupReference w"
  "heapRecursiveReference (ActionQueue_expandItems w) = heapRecursiveReference w"
  "fired (ActionQueue_expandItems w) = fired w"
  unfolding ActionQueue_expandItems_def
  by (subst foldl_frame; simp add: split_def)+

lemma QueueItem_reset_frame [simp]:
  "state (QueueItem_reset item w) = state w"
  "expandedIndex (QueueItem_reset item w) = expandedIndex w"
  "expandedActions (QueueItem_reset item w) = expandedActions w"
  "items (QueueItem_reset item w) = items w"
  "maxSize (QueueItem_reset item w) = maxSize w"
  "currentIndex (QueueItem_reset item w) = currentIndex w"
  "fired (QueueItem_reset item w) = fired w"
  by (cases item; simp)+

lemma reset_frame [simp]:
  "state (ActionQueue_reset w) = IDLE"
  "expandedIndex (ActionQueue_reset w) = 0"
  "expandedActions (ActionQueue_reset w) = []"
  "items (ActionQueue_reset w) = items w"
  "maxSize (ActionQueue_reset w) = maxSize w"
  "currentIndex (ActionQueue_reset w) = 0"
  "fired (ActionQueue_reset w) = fired w"
  unfolding ActionQueue_reset_def Let_def
  by (subst foldl_frame; simp)+

lemma update_frame [simp]:
  "expandedActions (snd (ActionQueue_update dt w)) = expandedActions w"
  "items (snd (ActionQueue_update dt w)) = items w"
  "maxSize (snd (ActionQueue_update dt w)) = maxSize w"
  by (simp_all add: ActionQueue_update_def Let_def split_def ActionQueue_getCurrentItemInfo_def
      split: option.split)

section \<open>The cursor\<close>

text \<open>With handlers that only observe, the operations are those of the sections above.\<close>

lemma callHandler_noHandlers: "callHandler noHandlers = fire"
  by (intro ext) (simp add: callHandler_def noHandlers_def)

lemma noHandlers_agree:
  "ActionQueue_notifyChange_with noHandlers w = ActionQueue_notifyChange w"
  "ActionQueue_add_with noHandlers item w = ActionQueue_add item w"
  "ActionQueue_removeAt_with noHandlers index w = ActionQueue_removeAt index w"
  "ActionQueue_clear_with noHandlers w = ActionQueue_clear w"
  "ActionQueue_enterStep_with noHandlers info w = ActionQueue_enterStep info w"
  "ActionQueue_leaveStep_with noHandlers info w = ActionQueue_leaveStep info w"
  unfolding ActionQueue_notifyChange_with_def ActionQueue_notifyChange_def
    ActionQueue_add_with_def ActionQueue_add_def ActionQueue_removeAt_with_def
    ActionQueue_removeAt_def ActionQueue_clear_with_def ActionQueue_clear_def
    ActionQueue_enterStep_with_def ActionQueue_enterStep_def ActionQueue_leaveStep_with_def
    ActionQueue_leaveStep_def callHandler_noHandlers
  by (rule refl)+

lemma noHandlers_agree_fun:
  "ActionQueue_notifyChange_with noHandlers = ActionQueue_notifyChange"
  "ActionQueue_enterStep_with noHandlers = ActionQueue_enterStep"
  "ActionQueue_leaveStep_with noHandlers = ActionQueue_leaveStep"
  by (intro ext, simp add: noHandlers_agree)+

lemma noHandlers_playback:
  "ActionQueue_start_with noHandlers w = ActionQueue_start w"
  "ActionQueue_update_with noHandlers dt w = ActionQueue_update dt w"
  unfolding ActionQueue_start_with_def ActionQueue_start_def ActionQueue_update_with_def
    ActionQueue_update_def noHandlers_agree_fun callHandler_noHandlers
  by (rule refl)+

lemma noHandlers_run: "run_with noHandlers ops w = run ops w"
proof (induction ops arbitrary: w)
  case Nil
  then show ?case by simp
next
  case (Cons op ops)
  have "applyOp_with noHandlers op w = applyOp op w"
    by (cases op) (simp_all add: noHandlers_agree noHandlers_playback)
  with Cons show ?case by simp
qed

lemma noHandlers_keepsPlayback: "keepsPlayback noHandlers"
  by (simp add: keepsPlayback_def noHandlers_def)

lemma callHandler_frame:
  assumes "keepsPlayback h"
  shows "state (callHandler h e w) = state w"
    and "expandedIndex (callHandler h e w) = expandedIndex w"
    and "expandedActions (callHandler h e w) = expandedActions w"
  using assms by (simp_all add: keepsPlayback_def callHandler_def)

lemma notifyChange_with_frame:
  assumes "keepsPlayback h"
  shows "state (ActionQueue_notifyChange_with h w) = state w"
    and "expandedIndex (ActionQueue_notifyChange_with h w) = expandedIndex w"
    and "expandedActions (ActionQueue_notifyChange_with h w) = expandedActions w"
  using assms by (simp_all add: ActionQueue_notifyChange_with_def callHandler_frame)

lemma enterStep_with_frame:
  assumes "keepsPlayback h"
  shows "state (ActionQueue_enterStep_with h i w) = state w"
    and "expandedIndex (ActionQueue_enterStep_with h i w) = expandedIndex w"
    and "expandedActions (ActionQueue_enterStep_with h i w) = expandedActions w"
  using assms
  by (simp_all add: ActionQueue_enterStep_with_def Let_def callHandler_frame split: option.split)

lemma leaveStep_with_frame:
  assumes "keepsPlayback h"
  shows "state (ActionQueue_leaveStep_with h i w) = state w"
    and "expandedIndex (ActionQueue_leaveStep_with h i w) = expandedIndex w"
    and "expandedActions (ActionQueue_leaveStep_with h i w) = expandedActions w"
  using assms
  by (simp_all add: ActionQueue_leaveStep_with_def Let_def callHandler_frame split: option.split)

lemmas with_frame =
  callHandler_frame notifyChange_with_frame enterStep_with_frame leaveStep_with_frame

lemma update_cursor:
  "keepsPlayback h \<Longrightarrow> cursorInvariant w \<Longrightarrow>
   cursorInvariant (snd (ActionQueue_update_with h dt w))"
  by (auto simp: cursorInvariant_def ActionQueue_update_with_def Let_def split_def
      ActionQueue_getCurrentItemInfo_def with_frame split: option.split QueueState.splits)

lemma start_cursor:
  "keepsPlayback h \<Longrightarrow> cursorInvariant w \<Longrightarrow> state w = IDLE \<or> state w = COMPLETE \<Longrightarrow>
   cursorInvariant (ActionQueue_start_with h w)"
  by (auto simp: cursorInvariant_def ActionQueue_start_with_def Let_def
      ActionQueue_getCurrentItemInfo_def with_frame split: option.split QueueState.splits)

lemma others_cursor:
  "cursorInvariant w \<Longrightarrow> cursorInvariant (ActionQueue_pause w)"
  "cursorInvariant w \<Longrightarrow> cursorInvariant (ActionQueue_resume w)"
  "cursorInvariant (ActionQueue_stop w)"
  "cursorInvariant (ActionQueue_reset w)"
  "keepsPlayback h \<Longrightarrow> cursorInvariant (ActionQueue_clear_with h w)"
  "keepsPlayback h \<Longrightarrow> cursorInvariant w \<Longrightarrow>
   cursorInvariant (snd (ActionQueue_add_with h item w))"
  "keepsPlayback h \<Longrightarrow> cursorInvariant w \<Longrightarrow>
   cursorInvariant (snd (ActionQueue_removeAt_with h index w))"
  by (auto simp: cursorInvariant_def ActionQueue_pause_def ActionQueue_resume_def
      ActionQueue_stop_def ActionQueue_clear_with_def ActionQueue_add_with_def
      ActionQueue_removeAt_with_def Let_def with_frame split: QueueState.splits)

lemma step_cursor:
  "keepsPlayback h \<Longrightarrow> cursorInvariant w \<Longrightarrow>
   (op = OpStart \<longrightarrow> state w = IDLE \<or> state w = COMPLETE) \<Longrightarrow>
   cursorInvariant (applyOp_with h op w)"
  by (cases op) (simp_all add: update_cursor start_cursor others_cursor)

lemma run_cursor:
  "keepsPlayback h \<Longrightarrow> cursorInvariant w \<Longrightarrow> startsFromRest h ops w \<Longrightarrow>
   cursorInvariant (run_with h ops w)"
proof (induction ops arbitrary: w)
  case Nil
  then show ?case by simp
next
  case (Cons op ops)
  from Cons.prems have "cursorInvariant (applyOp_with h op w)"
    by (intro step_cursor) (auto split: if_splits)
  with Cons show ?case by simp
qed

lemma new_cursor: "cursorInvariant (ActionQueue_new m w)"
  by (simp add: cursorInvariant_def ActionQueue_new_def)

text \<open>
  Claim C5, as amended. Take a queue created by the constructor, callback handlers that
  leave the queue's state, cursor and expanded list as they are (so none of them calls
  back into the playback controls of the queue), and any sequence of the operations
  start, update, pause, resume, stop, reset, clear, add and removeAt in which \<open>start()\<close>
  is called only on an idle or a complete queue. Then the cursor \<open>expandedIndex\<close> stays
  within \<open>[0, expandedActions.length]\<close>; a complete queue has the cursor at
  \<open>expandedActions.length\<close>, and the cursor is at \<open>expandedActions.length\<close> only in a
  complete queue or in an idle one (whose expansion is empty and whose cursor is 0, as
  before the first start and after stop, reset and clear); a running or paused queue
  has the cursor on a step.
\<close>

theorem C5_cursor_in_range:
  assumes "keepsPlayback h" and "startsFromRest h ops (ActionQueue_new m w)"
  shows "expandedIndex (run_with h ops (ActionQueue_new m w))
           \<le> length (expandedActions (run_with h ops (ActionQueue_new m w)))
     \<and> (state (run_with h ops (ActionQueue_new m w)) = COMPLETE \<longrightarrow>
          expandedIndex (run_with h ops (ActionQueue_new m w))
            = length (expandedActions (run_with h ops (ActionQueue_new m w))))
     \<and> (expandedIndex (run_with h ops (ActionQueue_new m w))
            = length (expandedActions (run_with h ops (ActionQueue_new m w))) \<longrightarrow>
          state (run_with h ops (ActionQueue_new m w)) = COMPLETE
          \<or> state (run_with h ops (ActionQueue_new m w)) = IDLE)
     \<and> (state (run_with h ops (ActionQueue_new m w)) = IDLE \<longrightarrow>
          expandedIndex (run_with h ops (ActionQueue_new m w)) = 0
          \<and> expandedActions (run_with h ops (ActionQueue_new m w)) = [])
     \<and> (state (run_with h ops (ActionQueue_new m w)) = RUNNING
          \<or> state (run_with h ops (ActionQueue_new m w)) = PAUSED \<longrightarrow>
          expandedIndex (run_with h ops (ActionQueue_new m w))
            < length (expandedActions (run_with h ops (ActionQueue_new m w))))"
proof -
  have "cursorInvariant (run_with h ops (ActionQueue_new m w))"
    using assms(1) new_cursor assms(2) by (rule run_cursor)
  then show ?thesis
    by (cases "state (run_with h ops (ActionQueue_new m w))") (simp_all add: cursorInvariant_def)
qed

theorem C5_cursor_in_range_witness:
  "keepsPlayback noHandlers
   \<and> startsFromRest noHandlers playOps (ActionQueue_new maxQueueSize threeActionStore)
   \<and> state (run_with noHandlers playOps (ActionQueue_new maxQueueSize threeActionStore))
       = COMPLETE
   \<and> length (expandedActions
        (run_with noHandlers playOps (ActionQueue_new maxQueueSize threeActionStore))) = 2
   \<and> expandedIndex (run_with noHandlers playOps (ActionQueue_new maxQueueSize threeActionStore))
       = 2"
proof -
  have k: "keepsPlayback noHandlers" by (rule noHandlers_keepsPlayback)
  have s: "startsFromRest noHandlers playOps (ActionQueue_new maxQueueSize threeActionStore)"
    by code_simp
  have c: "state (run_with noHandlers playOps (ActionQueue_new maxQueueSize threeActionStore))
      = COMPLETE"
    by code_simp
  have l: "length (expandedActions
        (run_with noHandlers playOps (ActionQueue_new maxQueueSize threeActionStore))) = 2"
    by code_simp
  from C5_cursor_in_range [OF k s] c l
  have "expandedIndex (run_with noHandlers playOps (ActionQueue_new maxQueueSize threeActionStore))
      = 2"
    by simp
  with k s c l show ?thesis by simp
qed

text \<open>
  The claim as it was stated fails in three ways. With handlers that only observe:
  after two of three actions have played, a pause, two removals and a further
  \<open>start()\<close> leave the cursor at 2 over an expansion of length 1; and after a successful
  \<open>start()\<close>, \<open>stop()\<close> leaves the cursor equal to the length of the (emptied) expansion in
  a queue that is idle, not complete. With the game's handler that stops the queue when
  the finish cell is reached: one action added, \<open>start()\<close> on the idle queue and one
  \<open>update\<close> that completes the action end in a complete queue with the cursor at 1 over
  an empty expansion, because \<open>update()\<close> goes on to advance the cursor after the handler
  has reset it.
\<close>

theorem C5_cursor_counterexample:
  "\<not> expandedIndex (run_with noHandlers slipOps (ActionQueue_new maxQueueSize threeActionStore))
       \<le> length (expandedActions
            (run_with noHandlers slipOps (ActionQueue_new maxQueueSize threeActionStore)))
   \<and> state (run_with noHandlers [OpAdd (ItemAction 0), OpStart]
              (ActionQueue_new maxQueueSize threeActionStore)) = RUNNING
   \<and> expandedIndex (run_with noHandlers stopOps (ActionQueue_new maxQueueSize threeActionStore))
       = length (expandedActions
           (run_with noHandlers stopOps (ActionQueue_new maxQueueSize threeActionStore)))
   \<and> state (run_with noHandlers stopOps (ActionQueue_new maxQueueSize threeActionStore))
       \<noteq> COMPLETE
   \<and> startsFromRest stopAtFinish finishOps (ActionQueue_new maxQueueSize threeActionStore)
   \<and> state (run_with stopAtFinish finishOps (ActionQueue_new maxQueueSize threeActionStore))
       = COMPLETE
   \<and> expandedIndex (run_with stopAtFinish finishOps
                      (ActionQueue_new maxQueueSize threeActionStore)) = 1
   \<and> expandedActions (run_with stopAtFinish finishOps
                        (ActionQueue_new maxQueueSize threeActionStore)) = []"
  by code_simp

section \<open>One update, one step\<close>

lemma update_index:
  "expandedIndex w \<le> expandedIndex (snd (ActionQueue_update dt w))"
  "expandedIndex (snd (ActionQueue_update dt w)) \<le> expandedIndex w + 1"
  by (simp_all add: ActionQueue_update_def Let_def split_def ActionQueue_getCurrentItemInfo_def
      split: option.split)

lemma update_complete_count:
  "length (filter isActionCompleteEvent (fired (snd (ActionQueue_update dt w)))) =
     length (filter isActionCompleteEvent (fired w))
     + (if expandedIndex (snd (ActionQueue_update dt w)) = expandedIndex w + 1 then 1 else 0)"
  by (simp add: ActionQueue_update_def Let_def split_def ActionQueue_getCurrentItemInfo_def
      enterStep_fired leaveStep_fired split: option.split)

lemma update_result:
  "res_actionComplete (fst (ActionQueue_update dt w)) =
     (expandedIndex (snd (ActionQueue_update dt w)) = expandedIndex w + 1)"
  by (simp add: ActionQueue_update_def Let_def split_def ActionQueue_getCurrentItemInfo_def
      emptyResult_def split: option.split)

lemma update_next_fresh:
  assumes "expandedIndex (snd (ActionQueue_update dt w)) = expandedIndex w + 1"
    and "expandedIndex w + 1 < length (expandedActions w)"
  shows "heapAction (snd (ActionQueue_update dt w)) (action (expandedActions w ! (expandedIndex w + 1)))
     = Action_start (heapAction (snd (ActionQueue_update dt w)) (action (expandedActions w ! (expandedIndex w + 1))))"
  using assms
  by (simp add: ActionQueue_update_def Let_def split_def ActionQueue_getCurrentItemInfo_def
      Action_start_def split: option.split if_splits)

lemma update_others:
  assumes "expandedIndex w < length (expandedActions w) \<longrightarrow> r \<noteq> action (expandedActions w ! expandedIndex w)"
    and "expandedIndex w + 1 < length (expandedActions w) \<longrightarrow> r \<noteq> action (expandedActions w ! (expandedIndex w + 1))"
  shows "heapAction (snd (ActionQueue_update dt w)) r = heapAction w r"
  using assms
  by (simp add: ActionQueue_update_def Let_def split_def ActionQueue_getCurrentItemInfo_def
      split: option.split if_splits)

text \<open>
  Claim C9. One call of \<open>update(deltaTime)\<close>, whatever \<open>deltaTime\<close> is, leaves the
  expanded list as it is, moves the cursor by one step or not at all, and calls
  \<open>onActionComplete\<close> once exactly when the cursor moves (which is when the returned
  \<open>actionComplete\<close> is true) and not at all otherwise. When the cursor moves onto a next
  step, that step's action has been started afresh: its progress is 0, whatever the
  surplus of \<open>deltaTime\<close> over the completed action was. No action object other than
  the current step's and the next step's is written, and an executing action that
  \<open>Action.update\<close> completes ends with progress exactly 1.
\<close>

theorem C9_update_single_step:
  "expandedIndex w \<le> expandedIndex (snd (ActionQueue_update dt w))
   \<and> expandedIndex (snd (ActionQueue_update dt w)) \<le> expandedIndex w + 1
   \<and> expandedActions (snd (ActionQueue_update dt w)) = expandedActions w
   \<and> length (filter isActionCompleteEvent (fired (snd (ActionQueue_update dt w))))
       \<le> length (filter isActionCompleteEvent (fired w)) + 1
   \<and> (length (filter isActionCompleteEvent (fired (snd (ActionQueue_update dt w))))
         = length (filter isActionCompleteEvent (fired w)) + 1
       \<longleftrightarrow> expandedIndex (snd (ActionQueue_update dt w)) = expandedIndex w + 1)
   \<and> (res_actionComplete (fst (ActionQueue_update dt w))
       \<longleftrightarrow> expandedIndex (snd (ActionQueue_update dt w)) = expandedIndex w + 1)
   \<and> (expandedIndex (snd (ActionQueue_update dt w)) = expandedIndex w + 1
        \<and> expandedIndex w + 1 < length (expandedActions w) \<longrightarrow>
        progress (heapAction (snd (ActionQueue_update dt w))
                    (action (expandedActions w ! (expandedIndex w + 1)))) = Num 0
        \<and> isExecuting (heapAction (snd (ActionQueue_update dt w))
                    (action (expandedActions w ! (expandedIndex w + 1))))
        \<and> \<not> isComplete (heapAction (snd (ActionQueue_update dt w))
                    (action (expandedActions w ! (expandedIndex w + 1)))))
   \<and> (\<forall>r. (expandedIndex w < length (expandedActions w) \<longrightarrow>
              r \<noteq> action (expandedActions w ! expandedIndex w))
          \<and> (expandedIndex w + 1 < length (expandedActions w) \<longrightarrow>
              r \<noteq> action (expandedActions w ! (expandedIndex w + 1)))
          \<longrightarrow> heapAction (snd (ActionQueue_update dt w)) r = heapAction w r)
   \<and> (isExecuting a \<and> \<not> isComplete a \<and> isComplete (fst (Action_update a dt)) \<longrightarrow>
        progress (fst (Action_update a dt)) = Num 1)"
proof -
  let ?w' = "snd (ActionQueue_update dt w)"
  let ?next = "action (expandedActions w ! (expandedIndex w + 1))"
  have fresh: "expandedIndex ?w' = expandedIndex w + 1
        \<and> expandedIndex w + 1 < length (expandedActions w) \<longrightarrow>
        progress (heapAction ?w' ?next) = Num 0 \<and> isExecuting (heapAction ?w' ?next)
        \<and> \<not> isComplete (heapAction ?w' ?next)"
  proof
    assume h: "expandedIndex ?w' = expandedIndex w + 1
        \<and> expandedIndex w + 1 < length (expandedActions w)"
    then have "heapAction ?w' ?next = Action_start (heapAction ?w' ?next)"
      by (intro update_next_fresh) simp_all
    then have "progress (heapAction ?w' ?next) = progress (Action_start (heapAction ?w' ?next))"
      and "isExecuting (heapAction ?w' ?next) = isExecuting (Action_start (heapAction ?w' ?next))"
      and "isComplete (heapAction ?w' ?next) = isComplete (Action_start (heapAction ?w' ?next))"
      by simp_all
    then show "progress (heapAction ?w' ?next) = Num 0 \<and> isExecuting (heapAction ?w' ?next)
        \<and> \<not> isComplete (heapAction ?w' ?next)"
      by (simp add: Action_start_def)
  qed
  have others: "\<forall>r. (expandedIndex w < length (expandedActions w) \<longrightarrow>
              r \<noteq> action (expandedActions w ! expandedIndex w))
          \<and> (expandedIndex w + 1 < length (expandedActions w) \<longrightarrow> r \<noteq> ?next)
          \<longrightarrow> heapAction ?w' r = heapAction w r"
    using update_others [where w = w and dt = dt] by blast
  have count: "length (filter isActionCompleteEvent (fired ?w'))
       \<le> length (filter isActionCompleteEvent (fired w)) + 1"
    and iff: "length (filter isActionCompleteEvent (fired ?w'))
         = length (filter isActionCompleteEvent (fired w)) + 1
       \<longleftrightarrow> expandedIndex ?w' = expandedIndex w + 1"
    using update_complete_count [where w = w and dt = dt] by (simp_all split: if_splits)
  have clamp: "isExecuting a \<and> \<not> isComplete a \<and> isComplete (fst (Action_update a dt)) \<longrightarrow>
        progress (fst (Action_update a dt)) = Num 1"
    by (simp add: Action_update_def Let_def)
  show ?thesis
    using update_index [where w = w and dt = dt] update_frame(1) [where w = w and dt = dt]
      count iff update_result [where w = w and dt = dt] fresh others clamp
    by (intro conjI)
qed

theorem C9_update_single_step_witness:
  "expandedIndex startedThree = 0
   \<and> expandedIndex (snd (ActionQueue_update 10000 startedThree)) = 1
   \<and> length (expandedActions startedThree) = 3
   \<and> action (expandedActions startedThree ! 1) = 1
   \<and> progress (heapAction (snd (ActionQueue_update 10000 startedThree)) 1) = Num 0
   \<and> heapAction (snd (ActionQueue_update 10000 startedThree)) 2 = heapAction startedThree 2"
proof -
  have a: "expandedIndex startedThree = 0"
    "expandedIndex (snd (ActionQueue_update 10000 startedThree)) = 1"
    "length (expandedActions startedThree) = 3"
    "action (expandedActions startedThree ! 0) = 0"
    "action (expandedActions startedThree ! 1) = 1"
    by code_simp+
  from C9_update_single_step [where w = startedThree and dt = 10000] a
  have "progress (heapAction (snd (ActionQueue_update 10000 startedThree)) 1) = Num 0"
    and "heapAction (snd (ActionQueue_update 10000 startedThree)) 2 = heapAction startedThree 2"
    by simp_all
  with a show ?thesis by simp
qed


section \<open>The count of total actions against the expansion\<close>

lemma foldl_sum: "foldl (\<lambda>c x. c + f x) a xs = a + sum_list (map f xs)" for a :: nat
  by (induction xs arbitrary: a) simp_all

lemma totalActions_sum:
  "ActionQueue_totalActions w =
     sum_list (map (\<lambda>item. case item of
                      ItemGroupReference r \<Rightarrow> length (ag_actions (gr_group (heapGroupReference w r)))
                    | _ \<Rightarrow> 1) (items w))"
proof -
  have "(\<lambda>count item. if isGroupReference item then count + itemGroupSize w item else count + 1)
      = (\<lambda>count item. count + (case item of
                      ItemGroupReference r \<Rightarrow> length (ag_actions (gr_group (heapGroupReference w r)))
                    | _ \<Rightarrow> 1))"
    by (intro ext) (simp add: ActionGroup_size_def split: QueueItem.split)
  then show ?thesis by (simp add: ActionQueue_totalActions_def foldl_sum)
qed

lemma expandItem_length:
  "length (expandedActions (ActionQueue_expandItem idx item w)) =
     length (expandedActions w) + itemExpansionLength w item"
proof (cases item)
  case (ItemAction r)
  then show ?thesis by simp
next
  case (ItemGroupReference r)
  show ?thesis unfolding ItemGroupReference
    by (simp add: Let_def)
       (subst foldl_count [where h = "\<lambda>w. length (expandedActions w)"], simp_all add: split_def)
next
  case (ItemRepeatBlock r)
  show ?thesis unfolding ItemRepeatBlock
    by (simp add: Let_def)
       (subst foldl_count [where h = "\<lambda>p. length (expandedActions (snd p))"],
        simp_all add: split_def)
next
  case (ItemRecursiveReference r)
  show ?thesis unfolding ItemRecursiveReference
    by (simp add: Let_def)
       (subst foldl_count [where h = "\<lambda>w. length (expandedActions w)"], simp_all add: split_def)
qed

lemma itemExpansionLength_cong:
  "heapRepeatBlock w' = heapRepeatBlock w \<Longrightarrow> heapGroupReference w' = heapGroupReference w \<Longrightarrow>
   heapRecursiveReference w' = heapRecursiveReference w \<Longrightarrow>
   itemExpansionLength w' item = itemExpansionLength w item"
  by (cases item) simp_all

lemma expandItems_length_aux:
  "length (expandedActions
      (foldl (\<lambda>w' (itemIdx, item). ActionQueue_expandItem itemIdx item w') w0 (enumerate n xs))) =
     length (expandedActions w0) + sum_list (map (itemExpansionLength w0) xs)"
proof (induction xs arbitrary: n w0)
  case Nil
  then show ?case by simp
next
  case (Cons x xs)
  have "itemExpansionLength (ActionQueue_expandItem n x w0) = itemExpansionLength w0"
    by (rule ext, rule itemExpansionLength_cong) simp_all
  then show ?case by (simp add: Cons.IH expandItem_length)
qed

lemma expandItems_length:
  "length (expandedActions (ActionQueue_expandItems w)) =
     sum_list (map (itemExpansionLength w) (items w))"
proof -
  have "itemExpansionLength (w\<lparr>expandedActions := []\<rparr>) = itemExpansionLength w"
    by (rule ext, rule itemExpansionLength_cong) simp_all
  then show ?thesis
    by (simp add: ActionQueue_expandItems_def expandItems_length_aux)
qed

lemma expandItem_length_any:
  "length (RepeatBlock_expandItem k item) = length (RepeatBlock_expandItem 0 item)"
  by (cases item) simp_all

lemma loop_length:
  "length (RepeatBlock_loop b k allActions) =
     length allActions
     + nat (rb_count b - k) * length (concat (map (RepeatBlock_expandItem 0) (rb_items b)))"
proof (induction b k allActions rule: RepeatBlock_loop.induct)
  case (1 b k allActions)
  show ?case
  proof (cases "k < rb_count b")
    case True
    have n: "length (concat (map (RepeatBlock_expandItem k) (rb_items b)))
        = length (concat (map (RepeatBlock_expandItem 0) (rb_items b)))"
      by (simp add: length_concat comp_def expandItem_length_any [of k])
    have s: "nat (rb_count b - k) = Suc (nat (rb_count b - (k + 1)))"
      using True by simp
    show ?thesis
      using True "1.IH" [OF True]
      by (subst RepeatBlock_loop.simps) (simp add: foldl_push n s)
  next
    case False
    then show ?thesis by (subst RepeatBlock_loop.simps) simp
  qed
qed

lemma repeat_at_least_count:
  assumes "1 < rb_count b" and "RepeatBlock_getExpandedActions b \<noteq> []"
  shows "2 \<le> length (RepeatBlock_getExpandedActions b)"
proof -
  let ?n = "length (concat (map (RepeatBlock_expandItem 0) (rb_items b)))"
  have l: "length (RepeatBlock_getExpandedActions b) = nat (rb_count b) * ?n"
    by (simp add: RepeatBlock_getExpandedActions_def loop_length)
  with assms(2) have n: "1 \<le> ?n" by (cases ?n) auto
  from assms(1) have "2 \<le> nat (rb_count b)" by simp
  then have "2 * 1 \<le> nat (rb_count b) * ?n" using n by (rule mult_le_mono)
  with l show ?thesis by simp
qed

lemma recursive_at_least_two:
  assumes "preActions g \<noteq> []" and "postActions g \<noteq> []" and "1 \<le> maxDepth g"
  shows "2 \<le> length (RecursiveGroup_getExpandedActions g 0)"
proof -
  have "2 \<le> length (RecursiveGroup_pre g 0) + length (RecursiveGroup_post g 0)"
    using assms(1,2) by (cases "preActions g"; cases "postActions g") (simp_all add: pre_length post_length)
  then show ?thesis using assms(3) by (simp add: expanded_unfold)
qed

lemma sum_list_strict:
  fixes f g :: "'a \<Rightarrow> nat"
  assumes "\<forall>x \<in> set xs. f x \<le> g x" and "\<exists>x \<in> set xs. f x < g x"
  shows "sum_list (map f xs) < sum_list (map g xs)"
  using assms
proof (induction xs)
  case Nil
  then show ?case by simp
next
  case (Cons x xs)
  show ?case
  proof (cases "f x < g x")
    case True
    have "sum_list (map f xs) \<le> sum_list (map g xs)"
      using Cons.prems(1) by (intro sum_list_mono) simp
    with True show ?thesis by simp
  next
    case False
    with Cons.prems have "\<exists>x \<in> set xs. f x < g x" by auto
    with Cons have "sum_list (map f xs) < sum_list (map g xs)" by simp
    moreover from Cons.prems(1) have "f x \<le> g x" by simp
    ultimately show ?thesis by simp
  qed
qed


text \<open>
  Claim C10, as amended. \<open>totalActions\<close> counts each plain action as 1, each group
  reference as the number of actions of its group, and each repeat block and each
  recursive reference as exactly 1, whatever the repeat count and the recursion depth;
  \<open>expandItems()\<close> produces, item by item, one step per plain action, one per action of
  a referenced group, and the whole expansion of a repeat block or a recursive
  reference. So \<open>totalActions\<close> is strictly less than the length of the expansion for
  every queue in which every repeat block and every recursive reference expands to at
  least one step and which contains a repeat block with count above 1, or a recursive
  reference with non-empty pre and post lists.
\<close>

theorem C10_totalActions_undercount:
  "ActionQueue_totalActions w =
     sum_list (map (\<lambda>item. case item of
                      ItemGroupReference r \<Rightarrow> length (ag_actions (gr_group (heapGroupReference w r)))
                    | _ \<Rightarrow> 1) (items w))
   \<and> length (expandedActions (ActionQueue_expandItems w)) =
       sum_list (map (itemExpansionLength w) (items w))
   \<and> ((\<forall>r. ItemRepeatBlock r \<in> set (items w) \<longrightarrow>
             RepeatBlock_getExpandedActions (heapRepeatBlock w r) \<noteq> [])
       \<and> (\<forall>r. ItemRecursiveReference r \<in> set (items w) \<longrightarrow>
             RecursiveReference_getExpandedActions (heapRecursiveReference w r) \<noteq> [])
       \<and> ((\<exists>r. ItemRepeatBlock r \<in> set (items w) \<and> 1 < rb_count (heapRepeatBlock w r))
          \<or> (\<exists>r. ItemRecursiveReference r \<in> set (items w)
                \<and> preActions (rr_group (heapRecursiveReference w r)) \<noteq> []
                \<and> postActions (rr_group (heapRecursiveReference w r)) \<noteq> []))
       \<longrightarrow> ActionQueue_totalActions w < length (expandedActions (ActionQueue_expandItems w)))"
proof -
  let ?f = "\<lambda>item. case item of
                      ItemGroupReference r \<Rightarrow> length (ag_actions (gr_group (heapGroupReference w r)))
                    | _ \<Rightarrow> (1::nat)"
  have strict: "ActionQueue_totalActions w < length (expandedActions (ActionQueue_expandItems w))"
    if nr: "\<forall>r. ItemRepeatBlock r \<in> set (items w) \<longrightarrow>
             RepeatBlock_getExpandedActions (heapRepeatBlock w r) \<noteq> []"
    and nc: "\<forall>r. ItemRecursiveReference r \<in> set (items w) \<longrightarrow>
             RecursiveReference_getExpandedActions (heapRecursiveReference w r) \<noteq> []"
    and ex: "(\<exists>r. ItemRepeatBlock r \<in> set (items w) \<and> 1 < rb_count (heapRepeatBlock w r))
          \<or> (\<exists>r. ItemRecursiveReference r \<in> set (items w)
                \<and> preActions (rr_group (heapRecursiveReference w r)) \<noteq> []
                \<and> postActions (rr_group (heapRecursiveReference w r)) \<noteq> [])"
  proof -
    have le: "\<forall>item \<in> set (items w). ?f item \<le> itemExpansionLength w item"
    proof
      fix item assume m: "item \<in> set (items w)"
      show "?f item \<le> itemExpansionLength w item"
      proof (cases item)
        case (ItemAction r)
        then show ?thesis by simp
      next
        case (ItemGroupReference r)
        then show ?thesis by (simp add: GroupReference_getActions_def ActionGroup_getActions_def)
      next
        case (ItemRepeatBlock r)
        with m nr have "RepeatBlock_getExpandedActions (heapRepeatBlock w r) \<noteq> []" by blast
        then show ?thesis using ItemRepeatBlock
          by (cases "RepeatBlock_getExpandedActions (heapRepeatBlock w r)") simp_all
      next
        case (ItemRecursiveReference r)
        with m nc have "RecursiveReference_getExpandedActions (heapRecursiveReference w r) \<noteq> []"
          by blast
        then show ?thesis using ItemRecursiveReference
          by (cases "RecursiveReference_getExpandedActions (heapRecursiveReference w r)") simp_all
      qed
    qed
    have lt: "\<exists>item \<in> set (items w). ?f item < itemExpansionLength w item"
      using ex
    proof
      assume "\<exists>r. ItemRepeatBlock r \<in> set (items w) \<and> 1 < rb_count (heapRepeatBlock w r)"
      then obtain r where r: "ItemRepeatBlock r \<in> set (items w)" "1 < rb_count (heapRepeatBlock w r)"
        by blast
      with nr have "2 \<le> length (RepeatBlock_getExpandedActions (heapRepeatBlock w r))"
        by (intro repeat_at_least_count) blast+
      then have "?f (ItemRepeatBlock r) < itemExpansionLength w (ItemRepeatBlock r)" by simp
      with r(1) show ?thesis by blast
    next
      assume "\<exists>r. ItemRecursiveReference r \<in> set (items w)
                \<and> preActions (rr_group (heapRecursiveReference w r)) \<noteq> []
                \<and> postActions (rr_group (heapRecursiveReference w r)) \<noteq> []"
      then obtain r where r: "ItemRecursiveReference r \<in> set (items w)"
          "preActions (rr_group (heapRecursiveReference w r)) \<noteq> []"
          "postActions (rr_group (heapRecursiveReference w r)) \<noteq> []"
        by blast
      from r(1) nc
      have "RecursiveGroup_getExpandedActions (rr_group (heapRecursiveReference w r)) 0 \<noteq> []"
        by (auto simp: RecursiveReference_getExpandedActions_def)
      then have "1 \<le> maxDepth (rr_group (heapRecursiveReference w r))"
        using expanded_beyond [of "rr_group (heapRecursiveReference w r)" 0]
        by (cases "maxDepth (rr_group (heapRecursiveReference w r)) \<le> 0") simp_all
      with r(2,3)
      have "2 \<le> length (RecursiveGroup_getExpandedActions (rr_group (heapRecursiveReference w r)) 0)"
        by (intro recursive_at_least_two)
      then have "?f (ItemRecursiveReference r) < itemExpansionLength w (ItemRecursiveReference r)"
        by (simp add: RecursiveReference_getExpandedActions_def)
      with r(1) show ?thesis by blast
    qed
    from le lt have "sum_list (map ?f (items w)) < sum_list (map (itemExpansionLength w) (items w))"
      by (rule sum_list_strict)
    then show ?thesis by (simp add: totalActions_sum expandItems_length)
  qed
  have p3: "(\<forall>r. ItemRepeatBlock r \<in> set (items w) \<longrightarrow>
             RepeatBlock_getExpandedActions (heapRepeatBlock w r) \<noteq> [])
       \<and> (\<forall>r. ItemRecursiveReference r \<in> set (items w) \<longrightarrow>
             RecursiveReference_getExpandedActions (heapRecursiveReference w r) \<noteq> [])
       \<and> ((\<exists>r. ItemRepeatBlock r \<in> set (items w) \<and> 1 < rb_count (heapRepeatBlock w r))
          \<or> (\<exists>r. ItemRecursiveReference r \<in> set (items w)
                \<and> preActions (rr_group (heapRecursiveReference w r)) \<noteq> []
                \<and> postActions (rr_group (heapRecursiveReference w r)) \<noteq> []))
       \<longrightarrow> ActionQueue_totalActions w < length (expandedActions (ActionQueue_expandItems w))"
  proof (intro impI, elim conjE)
    assume "\<forall>r. ItemRepeatBlock r \<in> set (items w) \<longrightarrow>
             RepeatBlock_getExpandedActions (heapRepeatBlock w r) \<noteq> []"
      and "\<forall>r. ItemRecursiveReference r \<in> set (items w) \<longrightarrow>
             RecursiveReference_getExpandedActions (heapRecursiveReference w r) \<noteq> []"
      and "(\<exists>r. ItemRepeatBlock r \<in> set (items w) \<and> 1 < rb_count (heapRepeatBlock w r))
          \<or> (\<exists>r. ItemRecursiveReference r \<in> set (items w)
                \<and> preActions (rr_group (heapRecursiveReference w r)) \<noteq> []
                \<and> postActions (rr_group (heapRecursiveReference w r)) \<noteq> [])"
    then show "ActionQueue_totalActions w < length (expandedActions (ActionQueue_expandItems w))"
      by (rule strict)
  qed
  from totalActions_sum [where w = w] expandItems_length [where w = w] p3
  show ?thesis by (intro conjI)
qed



theorem C10_totalActions_undercount_witness:
  "items scenarioRepeatWorld = [ItemRepeatBlock 0]
   \<and> 1 < rb_count (heapRepeatBlock scenarioRepeatWorld 0)
   \<and> ActionQueue_totalActions scenarioRepeatWorld = 1
   \<and> length (expandedActions (ActionQueue_expandItems scenarioRepeatWorld)) = 3
   \<and> ActionQueue_totalActions scenarioRepeatWorld
       < length (expandedActions (ActionQueue_expandItems scenarioRepeatWorld))"
proof -
  have i: "items scenarioRepeatWorld = [ItemRepeatBlock 0]" by code_simp
  have c: "rb_count (heapRepeatBlock scenarioRepeatWorld 0) = 3" by code_simp
  have it: "rb_items (heapRepeatBlock scenarioRepeatWorld 0) =
      [RepeatAction (Action_new MOVE_RIGHT actionDuration)]"
    by code_simp
  have e: "length (RepeatBlock_getExpandedActions (heapRepeatBlock scenarioRepeatWorld 0)) = 3"
    by (simp add: repeat_scenario [OF c it])
  then have ne: "RepeatBlock_getExpandedActions (heapRepeatBlock scenarioRepeatWorld 0) \<noteq> []"
    by auto
  from C10_totalActions_undercount [where w = scenarioRepeatWorld]
  have t: "ActionQueue_totalActions scenarioRepeatWorld = 1"
    and l: "length (expandedActions (ActionQueue_expandItems scenarioRepeatWorld)) = 3"
    and s: "ActionQueue_totalActions scenarioRepeatWorld
       < length (expandedActions (ActionQueue_expandItems scenarioRepeatWorld))"
    using i c e ne by simp_all
  from i c t l s show ?thesis by simp
qed

text \<open>
  The claim as it was stated fails for a repeat block without items: it counts 1 in
  \<open>totalActions\<close> and expands to nothing, with a count of 2.
\<close>

theorem C10_totalActions_counterexample:
  "items emptyRepeatWorld = [ItemRepeatBlock 0]
   \<and> 1 < rb_count (heapRepeatBlock emptyRepeatWorld 0)
   \<and> \<not> ActionQueue_totalActions emptyRepeatWorld
         < length (expandedActions (ActionQueue_expandItems emptyRepeatWorld))"
proof -
  have i: "items emptyRepeatWorld = [ItemRepeatBlock 0]" by code_simp
  have c: "rb_count (heapRepeatBlock emptyRepeatWorld 0) = 2" by code_simp
  have it: "rb_items (heapRepeatBlock emptyRepeatWorld 0) = []" by code_simp
  have e: "RepeatBlock_getExpandedActions (heapRepeatBlock emptyRepeatWorld 0) = []"
    by (simp add: RepeatBlock_getExpandedActions_def loop_closed_form it)
  have t: "ActionQueue_totalActions emptyRepeatWorld = 1" by code_simp
  have l: "length (expandedActions (ActionQueue_expandItems emptyRepeatWorld)) = 0"
    by (simp add: expandItems_length i e)
  show ?thesis by (simp add: i c t l)
qed


section \<open>Playing two actions\<close>

lemma expandItems_two:
  assumes "items q = [ItemAction a, ItemAction b]"
  shows "expandedActions (ActionQueue_expandItems q) = [plainStep a 0, plainStep b 1]"
    and "heapAction (ActionQueue_expandItems q) = heapAction q"
  using assms by (simp_all add: ActionQueue_expandItems_def)

text \<open>
  Claim C2. Take an idle queue, its cursor at 0, whose items are exactly two plain
  actions, an Up and a Right, with non-zero durations. After \<open>start()\<close> the queue is
  running with the cursor on Up. After \<open>update\<close> with Up's duration the queue is still
  running, the cursor is 1 and points at the Right step, and since \<open>start()\<close>
  \<open>onActionComplete\<close> has been called exactly once, with the Up action (at index 0),
  and \<open>onQueueComplete\<close> not at all. After a second \<open>update\<close>, with Right's duration, the
  state is \<open>COMPLETE\<close> and \<open>onQueueComplete\<close> has been called exactly once.
\<close>

theorem C2_scenario_A:
  fixes q :: world and up right :: ref
  assumes items: "items q = [ItemAction up, ItemAction right]"
    and types: "atype (heapAction q up) = MOVE_UP" "atype (heapAction q right) = MOVE_RIGHT"
    and durs: "duration (heapAction q up) \<noteq> 0" "duration (heapAction q right) \<noteq> 0"
    and idle: "state q = IDLE" "expandedIndex q = 0"
  defines "s \<equiv> ActionQueue_start q"
  defines "u1 \<equiv> snd (ActionQueue_update (duration (heapAction s up)) s)"
  defines "u2 \<equiv> snd (ActionQueue_update (duration (heapAction u1 right)) u1)"
  shows "state s = RUNNING \<and> ActionQueue_getCurrentAction s = Some up
     \<and> state u1 = RUNNING \<and> expandedIndex u1 = 1
     \<and> ActionQueue_getCurrentAction u1 = Some right
     \<and> atype (heapAction u1 right) = MOVE_RIGHT
     \<and> filter isActionCompleteEvent (drop (length (fired q)) (fired u1))
         = [onActionComplete up 0 (plainStep up 0)]
     \<and> atype (heapAction u1 up) = MOVE_UP
     \<and> filter isQueueCompleteEvent (drop (length (fired q)) (fired u1)) = []
     \<and> state u2 = COMPLETE \<and> expandedIndex u2 = 2
     \<and> filter isQueueCompleteEvent (drop (length (fired q)) (fired u2)) = [onQueueComplete]"
proof -
  from types have ne: "up \<noteq> right" by auto
  have s: "state s = RUNNING" "expandedIndex s = 0"
    "expandedActions s = [plainStep up 0, plainStep right 1]"
    "heapAction s up = Action_start (heapAction q up)"
    "heapAction s right = heapAction q right"
    "items s = [ItemAction up, ItemAction right]" "currentIndex s = currentIndex q"
    "fired s = fired q @ [onActionStart up 0 (plainStep up 0),
                          onQueueChange [ItemAction up, ItemAction right] (currentIndex q)]"
    unfolding s_def using ne
    by (simp_all add: ActionQueue_start_def items idle Let_def expandItems_two [OF items]
        ActionQueue_getCurrentItemInfo_def ActionQueue_enterStep_def plainStep_def
        ActionQueue_notifyChange_def fire_def)
  have d1: "duration (heapAction s up) = duration (heapAction q up)"
    by (simp add: s Action_start_def)
  have u1: "state u1 = RUNNING" "expandedIndex u1 = 1"
    "expandedActions u1 = [plainStep up 0, plainStep right 1]"
    "heapAction u1 right = Action_start (heapAction q right)"
    "atype (heapAction u1 up) = MOVE_UP"
    "items u1 = [ItemAction up, ItemAction right]" "currentIndex u1 = currentIndex q"
    "fired u1 = fired q @ [onActionStart up 0 (plainStep up 0),
                          onQueueChange [ItemAction up, ItemAction right] (currentIndex q),
                          onActionComplete up 0 (plainStep up 0),
                          onActionStart right 1 (plainStep right 1),
                          onQueueChange [ItemAction up, ItemAction right] (currentIndex q)]"
    unfolding u1_def d1 using ne durs(1) types
    by (simp_all add: ActionQueue_update_def s Let_def ActionQueue_getCurrentItemInfo_def
        ActionQueue_enterStep_def ActionQueue_leaveStep_def Action_update_def Action_start_def
        js_div_def plainStep_def ActionQueue_notifyChange_def fire_def)
  have d2: "duration (heapAction u1 right) = duration (heapAction q right)"
    by (simp add: u1 Action_start_def)
  have u2: "state u2 = COMPLETE" "expandedIndex u2 = 2"
    "fired u2 = fired u1 @ [onActionComplete right 1 (plainStep right 1), onQueueComplete,
                            onQueueChange [ItemAction up, ItemAction right] (currentIndex q)]"
    unfolding u2_def d2 using ne durs(2)
    by (simp_all add: ActionQueue_update_def u1(1-4,6,7) Let_def ActionQueue_getCurrentItemInfo_def
        ActionQueue_enterStep_def ActionQueue_leaveStep_def Action_update_def Action_start_def
        js_div_def plainStep_def ActionQueue_notifyChange_def fire_def)
  show ?thesis
    using types(2)
    by (simp add: s u1 u2 ActionQueue_getCurrentAction_def plainStep_def Action_start_def)
qed


theorem C2_scenario_A_witness:
  "items scenarioQueue = [ItemAction 0, ItemAction 1]
   \<and> state (ActionQueue_start scenarioQueue) = RUNNING
   \<and> expandedIndex (snd (ActionQueue_update 300 (ActionQueue_start scenarioQueue))) = 1
   \<and> ActionQueue_getCurrentAction (snd (ActionQueue_update 300 (ActionQueue_start scenarioQueue)))
       = Some 1
   \<and> state (snd (ActionQueue_update 300
               (snd (ActionQueue_update 300 (ActionQueue_start scenarioQueue))))) = COMPLETE
   \<and> filter isQueueCompleteEvent
        (drop (length (fired scenarioQueue))
           (fired (snd (ActionQueue_update 300
                     (snd (ActionQueue_update 300 (ActionQueue_start scenarioQueue)))))))
       = [onQueueComplete]"
proof -
  have i: "items scenarioQueue = [ItemAction 0, ItemAction 1]" by code_simp
  have t: "atype (heapAction scenarioQueue 0) = MOVE_UP"
    "atype (heapAction scenarioQueue 1) = MOVE_RIGHT"
    by code_simp+
  have d: "duration (heapAction scenarioQueue 0) \<noteq> 0"
    "duration (heapAction scenarioQueue 1) \<noteq> 0"
    by code_simp+
  have st: "state scenarioQueue = IDLE" "expandedIndex scenarioQueue = 0" by code_simp+
  have d1: "duration (heapAction (ActionQueue_start scenarioQueue) 0) = 300" by code_simp
  have d2: "duration (heapAction (snd (ActionQueue_update 300 (ActionQueue_start scenarioQueue)))
                (Suc 0)) = 300"
    by code_simp
  from C2_scenario_A [OF i t d st] i show ?thesis by (simp add: d1 d2)
qed

section \<open>Changing the items of a running queue\<close>

text \<open>
  Claim C4, as amended. While the queue is running, \<open>add(item)\<close> returns false and
  \<open>removeAt(index)\<close> returns null, and both leave the queue, so its items, as it was.
  \<open>clear()\<close> is not rejected in any state: on a running queue it stops playback first,
  and it always leaves the items and the expansion empty, the cursor at 0 and the queue
  idle. In the states idle, paused and complete, \<open>add\<close> appends the item and returns
  true when the queue holds fewer than \<open>maxSize\<close> items (and is rejected when it is
  full), and \<open>removeAt\<close> removes and returns the item at a valid index (and returns null
  for an index out of range).
\<close>

theorem C4_mutation_guards:
  "(state w = RUNNING \<longrightarrow>
      ActionQueue_add item w = (False, w) \<and> ActionQueue_removeAt index w = (None, w))
   \<and> items (ActionQueue_clear w) = [] \<and> state (ActionQueue_clear w) = IDLE
   \<and> expandedActions (ActionQueue_clear w) = [] \<and> expandedIndex (ActionQueue_clear w) = 0
   \<and> (state w \<noteq> RUNNING \<and> int (length (items w)) < maxSize w \<longrightarrow>
        fst (ActionQueue_add item w)
        \<and> items (snd (ActionQueue_add item w)) = items w @ [item]
        \<and> state (snd (ActionQueue_add item w)) = state w)
   \<and> (maxSize w \<le> int (length (items w)) \<longrightarrow> ActionQueue_add item w = (False, w))
   \<and> (state w \<noteq> RUNNING \<and> 0 \<le> index \<and> index < int (length (items w)) \<longrightarrow>
        fst (ActionQueue_removeAt index w) = Some (items w ! nat index)
        \<and> items (snd (ActionQueue_removeAt index w))
            = take (nat index) (items w) @ drop (Suc (nat index)) (items w)
        \<and> length (items (snd (ActionQueue_removeAt index w))) = length (items w) - 1
        \<and> state (snd (ActionQueue_removeAt index w)) = state w)
   \<and> (index < 0 \<or> int (length (items w)) \<le> index \<longrightarrow>
        ActionQueue_removeAt index w = (None, w))"
  by (auto simp: ActionQueue_add_def ActionQueue_removeAt_def ActionQueue_clear_def Let_def
      ActionQueue_stop_def)


theorem C4_mutation_guards_witness:
  "state startedThree = RUNNING
   \<and> ActionQueue_add (ItemAction 0) startedThree = (False, startedThree)
   \<and> ActionQueue_removeAt 1 startedThree = (None, startedThree)
   \<and> items (ActionQueue_clear startedThree) = []
   \<and> state (ActionQueue_pause startedThree) = PAUSED
   \<and> items (snd (ActionQueue_add (ItemAction 0) (ActionQueue_pause startedThree)))
       = [ItemAction 0, ItemAction 1, ItemAction 2, ItemAction 0]
   \<and> fst (ActionQueue_removeAt 1 (ActionQueue_pause startedThree)) = Some (ItemAction 1)
   \<and> items (snd (ActionQueue_removeAt 1 (ActionQueue_pause startedThree)))
       = [ItemAction 0, ItemAction 2]
   \<and> ActionQueue_removeAt 3 (ActionQueue_pause startedThree)
       = (None, ActionQueue_pause startedThree)"
proof -
  have r: "state startedThree = RUNNING" by code_simp
  have p: "state (ActionQueue_pause startedThree) = PAUSED"
    "items (ActionQueue_pause startedThree) = [ItemAction 0, ItemAction 1, ItemAction 2]"
    "maxSize (ActionQueue_pause startedThree) = 50"
    by code_simp+
  from C4_mutation_guards [of startedThree "ItemAction 0" 1]
       C4_mutation_guards [of "ActionQueue_pause startedThree" "ItemAction 0" 1]
       C4_mutation_guards [of "ActionQueue_pause startedThree" "ItemAction 0" 3]
  show ?thesis by (simp add: r p)
qed

text \<open>
  The claim as it was stated fails for \<open>clear()\<close>: on a running queue of three items it
  is carried out, and the items are gone.
\<close>

theorem C4_clear_counterexample:
  "state startedThree = RUNNING
   \<and> items startedThree = [ItemAction 0, ItemAction 1, ItemAction 2]
   \<and> items (ActionQueue_clear startedThree) = []
   \<and> items (ActionQueue_clear startedThree) \<noteq> items startedThree"
  by code_simp


end
